theory Spec2Isabelle
  imports Complex_Main "HOL-Library.Multiset"
begin

section \<open>The GTK application shell: gtk/Application.cc\<close>

text \<open>
  A shallow embedding of \<^verbatim>\<open>Application::Impl\<close>. The members of the class are the
  fields of the record \<open>impl\<close>; every call that leaves the file (to the session object,
  the main window, the action registry, the torrent engine, GLib) is appended to the
  field \<open>trace\<close> as an \<open>effect\<close>, in program order. \<^verbatim>\<open>g_assert_not_reached\<close> and
  \<^verbatim>\<open>g_error\<close> end the process: a handler that can reach one returns \<open>abort + impl\<close>.
  Where the file has two variants under \<^verbatim>\<open>GTKMM_CHECK_VERSION(4, 0, 0)\<close>, the GTK 3 one
  is modelled; \<^verbatim>\<open>on_drag_data_received\<close> is modelled in both. Messages are the
  untranslated ones.
\<close>

subsection \<open>Engine types\<close>

type_synonym tr_torrent_id_t = int

text \<open>
  Modelled from the spec: \<^verbatim>\<open>tr_quark\<close> (libtransmission/quark.h, not under src/) is
  the interned key of a string; a quark is modelled by the string it interns, and the
  enumerator \<^verbatim>\<open>TR_KEY_foo_bar\<close> by the string \<open>''foo-bar''\<close>.
\<close>

type_synonym tr_quark = string

text \<open>
  \<^verbatim>\<open>tr_variant\<close>: the engine's JSON-like value. A dictionary keeps its children in
  insertion order (\<^verbatim>\<open>tr_variantDictChild\<close> reads the i-th one), so it is an association
  list.
\<close>

datatype tr_variant =
    V_int int
  | V_bool bool
  | V_real real
  | V_str string
  | V_list "tr_variant list"
  | V_dict "(tr_quark \<times> tr_variant) list"

type_synonym dict = "(tr_quark \<times> tr_variant) list"

text \<open>
  Modelled from the spec: \<^verbatim>\<open>enum tr_torrent_activity\<close> (libtransmission/transmission.h,
  not under src/), the activity/status enumeration of a torrent; its enumerators are
  distinct values.
\<close>

datatype tr_torrent_activity =
    TR_STATUS_STOPPED
  | TR_STATUS_CHECK_WAIT
  | TR_STATUS_CHECK
  | TR_STATUS_DOWNLOAD_WAIT
  | TR_STATUS_DOWNLOAD
  | TR_STATUS_SEED_WAIT
  | TR_STATUS_SEED

text \<open>
  What this file reads of a \<^verbatim>\<open>tr_torrent\<close>: \<^verbatim>\<open>tr_torrentId(tor)\<close> and
  \<^verbatim>\<open>tr_torrentCanManualUpdate(tor)\<close>.
\<close>

record tr_torrent =
  tr_torrentId :: tr_torrent_id_t
  tr_torrentCanManualUpdate :: bool

text \<open>A row of the torrent list model, with the columns of \<^verbatim>\<open>torrent_cols\<close> read here.\<close>

record torrent_row =
  col_torrent_id :: tr_torrent_id_t
  col_torrent :: tr_torrent
  col_activity :: tr_torrent_activity

text \<open>
  The values a variable of the unscoped enum \<^verbatim>\<open>tr_rpc_callback_type\<close> can hold: its
  ten enumerators, and any other integer (\<open>TR_RPC_unknown\<close>).
\<close>

datatype tr_rpc_callback_type =
    TR_RPC_TORRENT_ADDED
  | TR_RPC_TORRENT_STARTED
  | TR_RPC_TORRENT_STOPPED
  | TR_RPC_TORRENT_REMOVING
  | TR_RPC_TORRENT_TRASHING
  | TR_RPC_TORRENT_CHANGED
  | TR_RPC_TORRENT_MOVED
  | TR_RPC_SESSION_CHANGED
  | TR_RPC_SESSION_QUEUE_POSITIONS_CHANGED
  | TR_RPC_SESSION_CLOSE
  | TR_RPC_unknown int

text \<open>\<^verbatim>\<open>Session::ErrorCode\<close>: the three codes \<^verbatim>\<open>on_core_error\<close> names, and any other value.\<close>

datatype ErrorCode =
    ERR_ADD_TORRENT_ERR
  | ERR_ADD_TORRENT_DUP
  | ERR_NO_MORE_TORRENTS
  | ERR_unknown int

subsection \<open>Printing an integer to a stream\<close>

text \<open>
  The decimal digits of an integer, most significant first, after a minus sign for a
  negative number. This is what \<^verbatim>\<open>fmt::format\<close> writes for \<^verbatim>\<open>{}\<close>, and what a stream
  writes in the classic locale.
\<close>

definition digit_char :: "nat \<Rightarrow> char" where
  "digit_char d = ''0123456789'' ! d"

function show_nat :: "nat \<Rightarrow> string" where
  "show_nat n = (if n < 10 then [digit_char n] else show_nat (n div 10) @ [digit_char (n mod 10)])"
  by pat_completeness auto
termination
  by (relation "measure id") auto

declare show_nat.simps [simp del]

definition show_int :: "int \<Rightarrow> string" where
  "show_int i = (if i < 0 then CHR ''-'' # show_nat (nat (- i)) else show_nat (nat i))"

text \<open>
  \<^verbatim>\<open>gstr << id\<close> on a \<^verbatim>\<open>std::ostringstream\<close>. The stream is never imbued, so it formats
  with the global C++ locale of the moment it is constructed, and nothing in this file sets
  that locale: its \<^verbatim>\<open>std::numpunct<char>\<close> facet is a parameter. \<^verbatim>\<open>std::num_put\<close> groups the
  digits from the right by the sizes of \<^verbatim>\<open>grouping()\<close>, the last size repeating, and puts
  \<^verbatim>\<open>thousands_sep()\<close> between two groups; an empty \<^verbatim>\<open>grouping()\<close> (the classic locale) or
  a size that is not positive (0 here) ends the grouping. The sign is written before the
  grouped digits.
\<close>

record numpunct =
  thousands_sep :: char
  grouping :: "nat list"

text \<open>\<^verbatim>\<open>add_grouping\<close> works on the digits least significant first.\<close>

function add_grouping :: "char \<Rightarrow> nat list \<Rightarrow> string \<Rightarrow> string" where
  "add_grouping sep [] ds = ds"
| "add_grouping sep (g # gs) ds =
     (if g = 0 \<or> length ds \<le> g then ds
      else take g ds @ sep # add_grouping sep (if gs = [] then [g] else gs) (drop g ds))"
  by pat_completeness auto
termination
  by (relation "measure (\<lambda>(sep, gs, ds). length ds)") auto

declare add_grouping.simps [simp del]

definition group_digits :: "numpunct \<Rightarrow> string \<Rightarrow> string" where
  "group_digits np ds = rev (add_grouping (thousands_sep np) (grouping np) (rev ds))"

definition stream_put_int :: "numpunct \<Rightarrow> int \<Rightarrow> string" where
  "stream_put_int np i =
     (if i < 0 then CHR ''-'' # group_digits np (show_nat (nat (- i)))
      else group_digits np (show_nat (nat i)))"

definition classic_locale :: numpunct where
  "classic_locale = \<lparr>thousands_sep = CHR '','', grouping = []\<rparr>"


subsection \<open>Calls that leave the file\<close>

text \<open>How the process ends other than by returning from \<^verbatim>\<open>main\<close>.\<close>

datatype abort =
    Assert_not_reached
  | Fatal_error string
  | Killed_by_signal int

datatype gio_file = File_create_for_uri string

datatype dialog_kind =
    TorrentUrlChooserDialog
  | TorrentFileChooserDialog
  | StatsDialog
  | RelocateDialog "tr_torrent_id_t list"
  | MakeDialog
  | AboutDialog
  | OptionsDialog

datatype setter_arg =
    Arg_int int
  | Arg_enum string int
  | Arg_flag bool
  | Arg_string string
  | Arg_double real
  | Arg_const string

text \<open>
  Callbacks attached to the GLib main loop with \<^verbatim>\<open>Glib::signal_idle().connect\<close>, and the
  statements of a detached \<^verbatim>\<open>std::thread\<close>.
\<close>

datatype idle_callback =
    Idle_refresh_actions
  | Idle_update_model_once
  | Idle_on_session_closed
  | Idle_on_rpc_changed tr_rpc_callback_type tr_torrent_id_t

datatype thread_op =
    Op_tr_sessionClose
  | Op_idle_connect idle_callback

datatype effect =
    Action_set_sensitive string bool
  | Action_set_toggled string bool
  | Core_add_torrent tr_torrent_id_t bool
  | Core_remove_torrent tr_torrent_id_t bool
  | Core_add_files "gio_file list" bool bool bool
  | Core_add_from_url string
  | Core_open_folder tr_torrent_id_t
  | Core_clear
  | Core_close
  | Core_update
  | Core_prefs_changed_emit tr_quark
  | Session_call string "setter_arg list"
  | Rpc_request_exec tr_variant
  | Message_dialog string string
  | Dialog_show dialog_kind
  | Details_create string "tr_torrent_id_t list"
  | Details_show string
  | Details_present string
  | Prefs_create
  | Prefs_present
  | Msgwin_create
  | Msgwin_show
  | Msgwin_close
  | Icon_create
  | Icon_refresh
  | Open_uri string
  | Clipboard_set_magnet string tr_torrent_id_t
  | Confirm_remove "tr_torrent_id_t list" bool
  | Selection_select_all
  | Selection_unselect_all
  | Wind_set_skip_taskbar_hint bool
  | Wind_set_visible bool
  | Wind_present
  | Wind_raise
  | Wind_resize int int
  | Wind_move int int
  | Wind_remove_child
  | Wind_set_show_menubar bool
  | Wind_add_closing_screen
  | Wind_set_urgency_hint bool
  | Wind_set_busy bool
  | Wind_refresh
  | Drag_finish bool bool
  | App_release
  | Tr_sessionClose_returned

subsection \<open>The environment\<close>

text \<open>
  Functions this file calls and whose code is elsewhere: the preference getters of
  gtk/Prefs.cc (they read the dictionary \<^verbatim>\<open>gtr_pref_get_all()\<close> returns),
  \<^verbatim>\<open>tr_variantToStr(v, TR_VARIANT_FMT_BENC)\<close>, \<^verbatim>\<open>Glib::path_get_basename\<close>,
  \<^verbatim>\<open>gtr_get_unicode_string(GtrUnicode::Bullet)\<close>, the result of
  \<^verbatim>\<open>core_->add_from_url\<close>, whether \<^verbatim>\<open>core_->find_torrent\<close> finds a torrent,
  \<^verbatim>\<open>gtr_get_help_uri()\<close>, and the settings \<^verbatim>\<open>tr_sessionGetSettings\<close> writes. They are parameters of the model,
  and so is the \<^verbatim>\<open>numpunct\<close> facet of the global C++ locale.
\<close>

record env =
  gtr_pref_int_get :: "dict \<Rightarrow> tr_quark \<Rightarrow> int"
  gtr_pref_flag_get :: "dict \<Rightarrow> tr_quark \<Rightarrow> bool"
  gtr_pref_string_get :: "dict \<Rightarrow> tr_quark \<Rightarrow> string"
  gtr_pref_double_get :: "dict \<Rightarrow> tr_quark \<Rightarrow> real"
  tr_variantToStr_benc :: "tr_variant \<Rightarrow> string"
  path_get_basename :: "string \<Rightarrow> string"
  unicode_bullet :: string
  core_add_from_url :: "string \<Rightarrow> bool"
  core_find_torrent :: "tr_torrent_id_t \<Rightarrow> bool"
  gtr_get_help_uri :: string
  session_settings :: dict
  global_locale :: numpunct

subsection \<open>The state of \<^verbatim>\<open>Application::Impl\<close>\<close>

text \<open>
  The counts are C \<^verbatim>\<open>int\<close>s that count rows of the selection. A GTK tree model holds
  fewer than \<open>2\<^sup>3\<^sup>1\<close> rows, so no count overflows, and they are integers here.
\<close>

record counts_data =
  total_count :: int
  queued_count :: int
  stopped_count :: int

record details_dialog =
  set_torrents :: "tr_torrent_id_t list"

text \<open>
  The members of \<^verbatim>\<open>Impl\<close> (a smart pointer is the flag "not null"; a
  \<^verbatim>\<open>sigc::connection\<close> is the flag "connected"), then what the handlers read of the
  session and the window, the process-wide \<^verbatim>\<open>global_sigcount\<close>, the idle sources of the
  main loop, the detached threads with the statements each has still to run, and the
  trace of calls.
\<close>

record impl =
  start_paused :: bool
  is_iconified :: bool
  is_closing :: bool
  timer :: bool
  update_model_soon_tag :: bool
  refresh_actions_tag :: bool
  icon :: bool
  wind :: bool
  core :: bool
  msgwin :: bool
  prefs :: bool
  error_list :: "string list"
  duplicates_list :: "string list"
  details :: "string \<rightharpoonup> details_dialog"
  sel :: "torrent_row list"
  core_torrent_count :: nat
  core_active_torrent_count :: nat
  model_rows :: "torrent_row list"
  wind_visible :: bool
  pref_all :: dict
  global_sigcount :: nat
  idle_queue :: "idle_callback list"
  threads :: "thread_op list list"
  trace :: "effect list"

definition emit :: "effect list \<Rightarrow> impl \<Rightarrow> impl" where
  "emit es s = s\<lparr>trace := trace s @ es\<rparr>"

definition then_do :: "abort + impl \<Rightarrow> (impl \<Rightarrow> abort + impl) \<Rightarrow> abort + impl" where
  "then_do r f = (case r of Inl a \<Rightarrow> Inl a | Inr s \<Rightarrow> f s)"

subsection \<open>Details dialogs\<close>

definition get_details_dialog_key :: "numpunct \<Rightarrow> tr_torrent_id_t list \<Rightarrow> string" where
  "get_details_dialog_key np id_list =
     (let tmp = sort id_list
      in foldl (\<lambda>gstr ident. gstr @ stream_put_int np ident @ '' '') [] tmp)"

definition get_selected_torrent_ids :: "impl \<Rightarrow> tr_torrent_id_t list" where
  "get_selected_torrent_ids s = foldl (\<lambda>ids row. ids @ [col_torrent_id row]) [] (sel s)"

definition show_details_dialog_for_selected_torrents :: "env \<Rightarrow> impl \<Rightarrow> impl" where
  "show_details_dialog_for_selected_torrents E s =
     (let ids = get_selected_torrent_ids s;
          key = get_details_dialog_key (global_locale E) ids
      in case details s key of
           None \<Rightarrow>
             emit [Details_create key ids, Details_show key, Details_present key]
               (s\<lparr>details := (details s)(key \<mapsto> \<lparr>set_torrents = ids\<rparr>)\<rparr>)
         | Some dialog \<Rightarrow> emit [Details_present key] s)"

subsection \<open>Selection counts and action sensitivity\<close>

definition count_row :: "counts_data \<Rightarrow> torrent_row \<Rightarrow> counts_data" where
  "count_row counts row =
     (let c1 = counts\<lparr>total_count := total_count counts + 1\<rparr>;
          activity = col_activity row;
          c2 = (if activity = TR_STATUS_DOWNLOAD_WAIT \<or> activity = TR_STATUS_SEED_WAIT
                then c1\<lparr>queued_count := queued_count c1 + 1\<rparr> else c1)
      in if activity = TR_STATUS_STOPPED
         then c2\<lparr>stopped_count := stopped_count c2 + 1\<rparr> else c2)"

definition get_selected_torrent_counts :: "impl \<Rightarrow> counts_data" where
  "get_selected_torrent_counts s =
     foldl count_row \<lparr>total_count = 0, queued_count = 0, stopped_count = 0\<rparr> (sel s)"

definition disconnect_refresh_actions_tag :: "impl \<Rightarrow> impl" where
  "disconnect_refresh_actions_tag s =
     s\<lparr>refresh_actions_tag := False,
       idle_queue := removeAll Idle_refresh_actions (idle_queue s)\<rparr>"

definition refresh_actions :: "impl \<Rightarrow> impl" where
  "refresh_actions s =
     disconnect_refresh_actions_tag
       (if \<not> is_closing s then
          (let total = core_torrent_count s;
               active = core_active_torrent_count s;
               torrent_count = length (model_rows s);
               sel_counts = get_selected_torrent_counts s;
               has_selection = total_count sel_counts > 0;
               canUpdate = foldl (\<lambda>c row. c \<or> tr_torrentCanManualUpdate (col_torrent row)) False (sel s)
           in emit
                [Action_set_sensitive ''select-all'' (torrent_count \<noteq> 0),
                 Action_set_sensitive ''deselect-all'' (torrent_count \<noteq> 0),
                 Action_set_sensitive ''pause-all-torrents'' (active \<noteq> 0),
                 Action_set_sensitive ''start-all-torrents'' (active \<noteq> total),
                 Action_set_sensitive ''torrent-stop'' (stopped_count sel_counts < total_count sel_counts),
                 Action_set_sensitive ''torrent-start'' (stopped_count sel_counts > 0),
                 Action_set_sensitive ''torrent-start-now''
                   (stopped_count sel_counts + queued_count sel_counts > 0),
                 Action_set_sensitive ''torrent-verify'' has_selection,
                 Action_set_sensitive ''remove-torrent'' has_selection,
                 Action_set_sensitive ''delete-torrent'' has_selection,
                 Action_set_sensitive ''relocate-torrent'' has_selection,
                 Action_set_sensitive ''queue-move-top'' has_selection,
                 Action_set_sensitive ''queue-move-up'' has_selection,
                 Action_set_sensitive ''queue-move-down'' has_selection,
                 Action_set_sensitive ''queue-move-bottom'' has_selection,
                 Action_set_sensitive ''show-torrent-properties'' has_selection,
                 Action_set_sensitive ''open-torrent-folder'' (total_count sel_counts = 1),
                 Action_set_sensitive ''copy-magnet-link-to-clipboard'' (total_count sel_counts = 1),
                 Action_set_sensitive ''torrent-reannounce'' canUpdate] s)
        else s)"

definition refresh_actions_soon :: "impl \<Rightarrow> impl" where
  "refresh_actions_soon s =
     (if \<not> is_closing s \<and> \<not> refresh_actions_tag s
      then s\<lparr>refresh_actions_tag := True, idle_queue := idle_queue s @ [Idle_refresh_actions]\<rparr>
      else s)"

subsection \<open>The magnet link handler\<close>

text \<open>
  The desktop's table of default applications by content type
  (\<^verbatim>\<open>Gio::AppInfo::get_default_for_uri_scheme("magnet")\<close> reads the entry of
  \<^verbatim>\<open>x-scheme-handler/magnet\<close>) and the GLib log. Each of the two Gio calls of
  \<^verbatim>\<open>register_magnet_link_handler\<close> returns, throws a \<^verbatim>\<open>Gio::Error\<close> (the one type the
  function's \<^verbatim>\<open>catch\<close> clause names) or throws an exception of another type (a
  \<^verbatim>\<open>Glib::Error\<close> of another domain, \<^verbatim>\<open>std::bad_alloc\<close>, ...), which the clause does not
  match; which of the three happens is a parameter. A thrown exception that leaves a
  function is the value \<^verbatim>\<open>Inl\<close> of its result.
\<close>

record gio_error =
  gio_what :: string
  gio_code :: int

datatype cpp_exception =
    Gio_Error gio_error
  | Other_exception string

record desktop =
  default_for_type :: "string \<rightharpoonup> string"
  warnings :: "string list"

record gio_calls =
  create_from_commandline :: "string \<Rightarrow> cpp_exception + string"
  set_as_default_for_type :: "string \<Rightarrow> string \<Rightarrow> cpp_exception + unit"

definition has_magnet_link_handler :: "desktop \<Rightarrow> bool" where
  "has_magnet_link_handler d = (default_for_type d (''x-scheme-handler/'' @ ''magnet'') \<noteq> None)"

definition register_try_block :: "gio_calls \<Rightarrow> string \<Rightarrow> desktop \<Rightarrow> cpp_exception + desktop" where
  "register_try_block g content_type d =
     (case create_from_commandline g ''transmission-gtk'' of
        Inl e \<Rightarrow> Inl e
      | Inr app \<Rightarrow>
          (case set_as_default_for_type g app content_type of
             Inl e \<Rightarrow> Inl e
           | Inr u \<Rightarrow> Inr (d\<lparr>default_for_type := (default_for_type d)(content_type \<mapsto> app)\<rparr>)))"

definition register_magnet_link_handler :: "gio_calls \<Rightarrow> desktop \<Rightarrow> cpp_exception + desktop" where
  "register_magnet_link_handler g d =
     (let content_type = ''x-scheme-handler/magnet''
      in case register_try_block g content_type d of
           Inr d' \<Rightarrow> Inr d'
         | Inl (Gio_Error e) \<Rightarrow>
             (let msg = ''Couldn't register Transmission as a '' @ content_type @ '' handler: ''
                        @ gio_what e @ '' ('' @ show_int (gio_code e) @ '')''
              in Inr (d\<lparr>warnings := warnings d @ [msg]\<rparr>))
         | Inl (Other_exception x) \<Rightarrow> Inl (Other_exception x))"

definition ensure_magnet_handler_exists :: "gio_calls \<Rightarrow> desktop \<Rightarrow> cpp_exception + desktop" where
  "ensure_magnet_handler_exists g d =
     (if \<not> has_magnet_link_handler d then register_magnet_link_handler g d else Inr d)"

subsection \<open>Opening files and drag and drop\<close>

definition open_files :: "env \<Rightarrow> impl \<Rightarrow> gio_file list \<Rightarrow> impl" where
  "open_files E s files =
     (let do_start = (gtr_pref_flag_get E (pref_all s) ''start-added-torrents'' \<and> \<not> start_paused s);
          do_prompt = gtr_pref_flag_get E (pref_all s) ''show-options-window'';
          do_notify = True
      in emit [Core_add_files files do_start do_prompt do_notify] s)"

text \<open>
  Modelled from the spec: \<^verbatim>\<open>gtr_str_strip\<close> (gtk/Utils.cc, not under src/) strips the
  whitespace surrounding a text.
\<close>

definition is_space :: "char \<Rightarrow> bool" where
  "is_space c = (c \<in> set [CHR '' '', CHR 0x09, CHR 0x0A, CHR 0x0B, CHR 0x0C, CHR 0x0D])"

definition gtr_str_strip :: "string \<Rightarrow> string" where
  "gtr_str_strip text = rev (dropWhile is_space (rev (dropWhile is_space text)))"

text \<open>The payload the GTK 3 handler reads, and the value the GTK 4 handler is given.\<close>

record selection_data =
  get_uris :: "string list"
  get_text :: string

datatype drop_value =
    File_list_value "gio_file list"
  | String_value string
  | Other_value

definition on_drag_data_received :: "env \<Rightarrow> impl \<Rightarrow> selection_data \<Rightarrow> impl" where
  "on_drag_data_received E s selection =
     (let uris = get_uris selection;
          s1 = (if uris \<noteq> [] then open_files E s (map File_create_for_uri uris)
                else (let text = gtr_str_strip (get_text selection)
                      in if text \<noteq> [] then emit [Core_add_from_url text] s else s))
      in emit [Drag_finish True False] s1)"

definition on_drag_data_received_gtk4 :: "env \<Rightarrow> impl \<Rightarrow> drop_value \<Rightarrow> impl \<times> bool" where
  "on_drag_data_received_gtk4 E s v =
     (case v of
        File_list_value files \<Rightarrow> (open_files E s files, True)
      | String_value str \<Rightarrow>
          (let text = gtr_str_strip str
           in if text \<noteq> [] then (emit [Core_add_from_url text] s, core_add_from_url E text)
              else (s, False))
      | Other_value \<Rightarrow> (s, False))"

subsection \<open>The main window\<close>

text \<open>
  \<^verbatim>\<open>(int)\<close> of the 64-bit integer \<^verbatim>\<open>gtr_pref_int_get\<close> returns: the value modulo \<open>2\<^sup>3\<^sup>2\<close> in
  the range of a 32-bit \<^verbatim>\<open>int\<close>.
\<close>

definition cast_int :: "int \<Rightarrow> int" where
  "cast_int v = (v + 2 ^ 31) mod 2 ^ 32 - 2 ^ 31"

definition placeWindowFromPrefs :: "env \<Rightarrow> impl \<Rightarrow> impl" where
  "placeWindowFromPrefs E s =
     emit [Wind_resize (cast_int (gtr_pref_int_get E (pref_all s) ''main-window-width''))
                       (cast_int (gtr_pref_int_get E (pref_all s) ''main-window-height'')),
           Wind_move (cast_int (gtr_pref_int_get E (pref_all s) ''main-window-x''))
                     (cast_int (gtr_pref_int_get E (pref_all s) ''main-window-y''))] s"

definition presentMainWindow :: "env \<Rightarrow> impl \<Rightarrow> impl" where
  "presentMainWindow E s =
     (let s1 = emit [Action_set_toggled ''toggle-main-window'' True] s;
          s2 = (if is_iconified s1
                then emit [Wind_set_skip_taskbar_hint False] (s1\<lparr>is_iconified := False\<rparr>)
                else s1);
          s3 = (if \<not> wind_visible s2
                then (emit [Wind_set_visible True] (placeWindowFromPrefs E s2))\<lparr>wind_visible := True\<rparr>
                else s2)
      in emit [Wind_present, Wind_raise] s3)"

definition hideMainWindow :: "impl \<Rightarrow> impl" where
  "hideMainWindow s =
     (emit [Action_set_toggled ''toggle-main-window'' False,
            Wind_set_skip_taskbar_hint True,
            Wind_set_visible False] s)\<lparr>wind_visible := False, is_iconified := True\<rparr>"

definition toggleMainWindow :: "env \<Rightarrow> impl \<Rightarrow> impl" where
  "toggleMainWindow E s = (if is_iconified s then presentMainWindow E s else hideMainWindow s)"

subsection \<open>Leaving the application\<close>

definition on_session_closed :: "impl \<Rightarrow> impl" where
  "on_session_closed s =
     emit [App_release]
       (s\<lparr>details := Map.empty,
          prefs := False,
          wind := False,
          core := False,
          icon := False,
          error_list := [],
          duplicates_list := []\<rparr>)"

definition on_app_exit :: "env \<Rightarrow> impl \<Rightarrow> impl" where
  "on_app_exit E s =
     (if is_closing s then s
      else
        (let s1 = s\<lparr>is_closing := True, timer := False\<rparr>;
             s2 = disconnect_refresh_actions_tag s1;
             s3 = emit [Wind_remove_child, Wind_set_show_menubar False, Wind_add_closing_screen,
                        Core_clear] s2;
             s4 = placeWindowFromPrefs E s3;
             s5 = emit [Core_close] s4
         in s5\<lparr>threads := threads s5 @ [[Op_tr_sessionClose, Op_idle_connect Idle_on_session_closed]]\<rparr>))"

subsection \<open>Errors of adding torrents\<close>

definition ngettext :: "string \<Rightarrow> string \<Rightarrow> nat \<Rightarrow> string" where
  "ngettext singular plural n = (if n = 1 then singular else plural)"

definition show_torrent_errors :: "env \<Rightarrow> string \<Rightarrow> string list \<Rightarrow> impl \<Rightarrow> impl \<times> string list" where
  "show_torrent_errors E primary files s =
     (let leader = (if length files > 1 then unicode_bullet E else []);
          str = foldl (\<lambda>acc f. acc @ leader @ '' '' @ f @ [CHR 0x0A]) [] files
      in (emit [Message_dialog primary str] s, []))"

definition flush_torrent_errors :: "env \<Rightarrow> impl \<Rightarrow> impl" where
  "flush_torrent_errors E s =
     (let s1 = (if error_list s \<noteq> [] then
                  (case show_torrent_errors E
                          (ngettext ''Couldn't add corrupt torrent'' ''Couldn't add corrupt torrents''
                             (length (error_list s)))
                          (error_list s) s of
                     (s', files) \<Rightarrow> s'\<lparr>error_list := files\<rparr>)
                else s)
      in if duplicates_list s1 \<noteq> [] then
           (case show_torrent_errors E
                   (ngettext ''Couldn't add duplicate torrent'' ''Couldn't add duplicate torrents''
                      (length (duplicates_list s1)))
                   (duplicates_list s1) s1 of
              (s', files) \<Rightarrow> s'\<lparr>duplicates_list := files\<rparr>)
         else s1)"

definition on_core_error :: "env \<Rightarrow> impl \<Rightarrow> ErrorCode \<Rightarrow> string \<Rightarrow> abort + impl" where
  "on_core_error E s code msg =
     (case code of
        ERR_ADD_TORRENT_ERR \<Rightarrow> Inr (s\<lparr>error_list := error_list s @ [path_get_basename E msg]\<rparr>)
      | ERR_ADD_TORRENT_DUP \<Rightarrow> Inr (s\<lparr>duplicates_list := duplicates_list s @ [msg]\<rparr>)
      | ERR_NO_MORE_TORRENTS \<Rightarrow> Inr (flush_torrent_errors E s)
      | ERR_unknown v \<Rightarrow> Inl Assert_not_reached)"

definition on_main_window_focus_in :: "impl \<Rightarrow> impl" where
  "on_main_window_focus_in s = (if wind s then emit [Wind_set_urgency_hint False] s else s)"

definition on_add_torrent :: "impl \<Rightarrow> impl" where
  "on_add_torrent s =
     (let s1 = (if wind s then emit [Wind_set_urgency_hint True] s else s)
      in emit [Dialog_show OptionsDialog] s1)"

subsection \<open>Relaying a changed preference to the engine\<close>

text \<open>
  An argument \<^verbatim>\<open>Arg_int v\<close> is the 64-bit integer \<^verbatim>\<open>gtr_pref_int_get(key)\<close> returns, as the
  call site writes it; the conversion to the type of the setter's parameter is the setter's
  declaration (libtransmission/transmission.h), which is not part of this file.
  \<^verbatim>\<open>Arg_enum t v\<close> is \<^verbatim>\<open>static_cast<t>(v)\<close>, for the enumeration \<^verbatim>\<open>t\<close> of that header.
\<close>

definition on_prefs_changed :: "env \<Rightarrow> impl \<Rightarrow> tr_quark \<Rightarrow> abort + impl" where
  "on_prefs_changed E s key =
     (let i = Arg_int (gtr_pref_int_get E (pref_all s) key);
          as_enum = (\<lambda>t. Arg_enum t (gtr_pref_int_get E (pref_all s) key));
          f = Arg_flag (gtr_pref_flag_get E (pref_all s) key);
          str = Arg_string (gtr_pref_string_get E (pref_all s) key);
          d = Arg_double (gtr_pref_double_get E (pref_all s) key);
          call = (\<lambda>name args. Inr (emit [Session_call name args] s))
      in
      if key = ''encryption'' then call ''tr_sessionSetEncryption'' [as_enum ''tr_encryption_mode'']
      else if key = ''default-trackers'' then call ''tr_sessionSetDefaultTrackers'' [str]
      else if key = ''download-dir'' then call ''tr_sessionSetDownloadDir'' [str]
      else if key = ''message-level'' then call ''tr_logSetLevel'' [as_enum ''tr_log_level'']
      else if key = ''peer-port'' then call ''tr_sessionSetPeerPort'' [i]
      else if key = ''blocklist-enabled'' then call ''tr_blocklistSetEnabled'' [f]
      else if key = ''blocklist-url'' then call ''tr_blocklistSetURL'' [str]
      else if key = ''show-notification-area-icon'' then
        (let show = gtr_pref_flag_get E (pref_all s) key
         in if show \<and> \<not> icon s then Inr (emit [Icon_create] (s\<lparr>icon := True\<rparr>))
            else if \<not> show \<and> icon s then Inr (s\<lparr>icon := False\<rparr>)
            else Inr s)
      else if key = ''speed-limit-down-enabled'' then call ''tr_sessionLimitSpeed'' [Arg_const ''TR_DOWN'', f]
      else if key = ''speed-limit-down'' then call ''tr_sessionSetSpeedLimit_KBps'' [Arg_const ''TR_DOWN'', i]
      else if key = ''speed-limit-up-enabled'' then call ''tr_sessionLimitSpeed'' [Arg_const ''TR_UP'', f]
      else if key = ''speed-limit-up'' then call ''tr_sessionSetSpeedLimit_KBps'' [Arg_const ''TR_UP'', i]
      else if key = ''ratio-limit-enabled'' then call ''tr_sessionSetRatioLimited'' [f]
      else if key = ''ratio-limit'' then call ''tr_sessionSetRatioLimit'' [d]
      else if key = ''idle-seeding-limit'' then call ''tr_sessionSetIdleLimit'' [i]
      else if key = ''idle-seeding-limit-enabled'' then call ''tr_sessionSetIdleLimited'' [f]
      else if key = ''port-forwarding-enabled'' then call ''tr_sessionSetPortForwardingEnabled'' [f]
      else if key = ''pex-enabled'' then call ''tr_sessionSetPexEnabled'' [f]
      else if key = ''rename-partial-files'' then call ''tr_sessionSetIncompleteFileNamingEnabled'' [f]
      else if key = ''download-queue-size'' then call ''tr_sessionSetQueueSize'' [Arg_const ''TR_DOWN'', i]
      else if key = ''queue-stalled-minutes'' then call ''tr_sessionSetQueueStalledMinutes'' [i]
      else if key = ''dht-enabled'' then call ''tr_sessionSetDHTEnabled'' [f]
      else if key = ''utp-enabled'' then call ''tr_sessionSetUTPEnabled'' [f]
      else if key = ''lpd-enabled'' then call ''tr_sessionSetLPDEnabled'' [f]
      else if key = ''rpc-port'' then call ''tr_sessionSetRPCPort'' [i]
      else if key = ''rpc-enabled'' then call ''tr_sessionSetRPCEnabled'' [f]
      else if key = ''rpc-whitelist'' then call ''tr_sessionSetRPCWhitelist'' [str]
      else if key = ''rpc-whitelist-enabled'' then call ''tr_sessionSetRPCWhitelistEnabled'' [f]
      else if key = ''rpc-username'' then call ''tr_sessionSetRPCUsername'' [str]
      else if key = ''rpc-password'' then call ''tr_sessionSetRPCPassword'' [str]
      else if key = ''rpc-authentication-required'' then call ''tr_sessionSetRPCPasswordEnabled'' [f]
      else if key = ''alt-speed-up'' then call ''tr_sessionSetAltSpeed_KBps'' [Arg_const ''TR_UP'', i]
      else if key = ''alt-speed-down'' then call ''tr_sessionSetAltSpeed_KBps'' [Arg_const ''TR_DOWN'', i]
      else if key = ''alt-speed-enabled'' then
        (let b = gtr_pref_flag_get E (pref_all s) key
         in Inr (emit [Session_call ''tr_sessionUseAltSpeed'' [Arg_flag b], Action_set_toggled key b] s))
      else if key = ''alt-speed-time-begin'' then call ''tr_sessionSetAltSpeedBegin'' [i]
      else if key = ''alt-speed-time-end'' then call ''tr_sessionSetAltSpeedEnd'' [i]
      else if key = ''alt-speed-time-enabled'' then call ''tr_sessionUseAltSpeedTime'' [f]
      else if key = ''alt-speed-time-day'' then call ''tr_sessionSetAltSpeedDay'' [as_enum ''tr_sched_day'']
      else if key = ''peer-port-random-on-start'' then call ''tr_sessionSetPeerPortRandomOnStart'' [f]
      else if key = ''incomplete-dir'' then call ''tr_sessionSetIncompleteDir'' [str]
      else if key = ''incomplete-dir-enabled'' then call ''tr_sessionSetIncompleteDirEnabled'' [f]
      else if key = ''script-torrent-done-enabled'' then
        call ''tr_sessionSetScriptEnabled'' [Arg_const ''TR_SCRIPT_ON_TORRENT_DONE'', f]
      else if key = ''script-torrent-done-filename'' then
        call ''tr_sessionSetScript'' [Arg_const ''TR_SCRIPT_ON_TORRENT_DONE'', str]
      else if key = ''script-torrent-done-seeding-enabled'' then
        call ''tr_sessionSetScriptEnabled'' [Arg_const ''TR_SCRIPT_ON_TORRENT_DONE_SEEDING'', f]
      else if key = ''script-torrent-done-seeding-filename'' then
        call ''tr_sessionSetScript'' [Arg_const ''TR_SCRIPT_ON_TORRENT_DONE_SEEDING'', str]
      else if key = ''start-added-torrents'' then
        call ''tr_sessionSetPaused'' [Arg_flag (\<not> gtr_pref_flag_get E (pref_all s) key)]
      else if key = ''trash-original-torrent-files'' then call ''tr_sessionSetDeleteSource'' [f]
      else Inr s)"

subsection \<open>Updating the model\<close>

definition update_model_once :: "impl \<Rightarrow> impl" where
  "update_model_once s =
     (let s1 = emit [Core_update] s;
          s2 = (if wind s1 then emit [Wind_refresh] s1 else s1);
          s3 = refresh_actions s2;
          s4 = (if icon s3 then emit [Icon_refresh] s3 else s3)
      in s4\<lparr>update_model_soon_tag := False,
            idle_queue := removeAll Idle_update_model_once (idle_queue s4)\<rparr>)"

definition update_model_soon :: "impl \<Rightarrow> impl" where
  "update_model_soon s =
     (if \<not> update_model_soon_tag s
      then s\<lparr>update_model_soon_tag := True, idle_queue := idle_queue s @ [Idle_update_model_once]\<rparr>
      else s)"

text \<open>The timer's callback: it returns \<open>!done\<close>, and a timer whose callback returns false is removed.\<close>

definition update_model_loop :: "impl \<Rightarrow> impl" where
  "update_model_loop s =
     (let done = (global_sigcount s \<noteq> 0)
      in if \<not> done then update_model_once s else s\<lparr>timer := False\<rparr>)"

subsection \<open>Actions\<close>

definition call_rpc_for_selected_torrents :: "impl \<Rightarrow> string \<Rightarrow> impl \<times> bool" where
  "call_rpc_for_selected_torrents s method_name =
     (let ids = foldl (\<lambda>l row. l @ [V_int (tr_torrentId (col_torrent row))]) [] (sel s);
          args = V_dict [(''ids'', V_list ids)];
          top = V_dict [(''method'', V_str method_name), (''arguments'', args)]
      in if length ids \<noteq> 0 then (emit [Rpc_request_exec top] s, True) else (s, False))"

definition remove_selected :: "impl \<Rightarrow> bool \<Rightarrow> impl" where
  "remove_selected s delete_files =
     (let l = foldl (\<lambda>l row. l @ [col_torrent_id row]) [] (sel s)
      in if l \<noteq> [] then emit [Confirm_remove l delete_files] s else s)"

definition start_all_torrents :: "impl \<Rightarrow> impl" where
  "start_all_torrents s = emit [Rpc_request_exec (V_dict [(''method'', V_str ''torrent-start'')])] s"

definition pause_all_torrents :: "impl \<Rightarrow> impl" where
  "pause_all_torrents s = emit [Rpc_request_exec (V_dict [(''method'', V_str ''torrent-stop'')])] s"

definition get_first_selected_torrent :: "impl \<Rightarrow> tr_torrent option" where
  "get_first_selected_torrent s = (case sel s of [] \<Rightarrow> None | row # l \<Rightarrow> Some (col_torrent row))"

definition copy_magnet_link_to_clipboard :: "impl \<Rightarrow> tr_torrent \<Rightarrow> impl" where
  "copy_magnet_link_to_clipboard s tor =
     emit [Clipboard_set_magnet ''CLIPBOARD'' (tr_torrentId tor),
           Clipboard_set_magnet ''PRIMARY'' (tr_torrentId tor)] s"

definition actions_handler :: "env \<Rightarrow> impl \<Rightarrow> string \<Rightarrow> abort + impl" where
  "actions_handler E s action_name =
     (if action_name = ''open-torrent-from-url'' then Inr (emit [Dialog_show TorrentUrlChooserDialog] s)
      else if action_name = ''open-torrent'' then Inr (emit [Dialog_show TorrentFileChooserDialog] s)
      else if action_name = ''show-stats'' then Inr (emit [Dialog_show StatsDialog] s)
      else if action_name = ''donate'' then Inr (emit [Open_uri ''https://transmissionbt.com/donate/''] s)
      else if action_name = ''pause-all-torrents'' then Inr (pause_all_torrents s)
      else if action_name = ''start-all-torrents'' then Inr (start_all_torrents s)
      else if action_name = ''copy-magnet-link-to-clipboard'' then
        (case get_first_selected_torrent s of
           Some tor \<Rightarrow> Inr (copy_magnet_link_to_clipboard s tor)
         | None \<Rightarrow> Inr s)
      else if action_name = ''relocate-torrent'' then
        (let ids = get_selected_torrent_ids s
         in if ids \<noteq> [] then Inr (emit [Dialog_show (RelocateDialog ids)] s) else Inr s)
      else if action_name = ''torrent-start'' \<or> action_name = ''torrent-start-now''
              \<or> action_name = ''torrent-stop'' \<or> action_name = ''torrent-reannounce''
              \<or> action_name = ''torrent-verify'' \<or> action_name = ''queue-move-top''
              \<or> action_name = ''queue-move-up'' \<or> action_name = ''queue-move-down''
              \<or> action_name = ''queue-move-bottom'' then
        (case call_rpc_for_selected_torrents s action_name of
           (s', changed) \<Rightarrow> Inr (if changed then update_model_soon s' else s'))
      else if action_name = ''open-torrent-folder'' then
        Inr (foldl (\<lambda>st row. emit [Core_open_folder (col_torrent_id row)] st) s (sel s))
      else if action_name = ''show-torrent-properties'' then
        Inr (show_details_dialog_for_selected_torrents E s)
      else if action_name = ''new-torrent'' then Inr (emit [Dialog_show MakeDialog] s)
      else if action_name = ''remove-torrent'' then Inr (remove_selected s False)
      else if action_name = ''delete-torrent'' then Inr (remove_selected s True)
      else if action_name = ''quit'' then Inr (on_app_exit E s)
      else if action_name = ''select-all'' then Inr (emit [Selection_select_all] s)
      else if action_name = ''deselect-all'' then Inr (emit [Selection_unselect_all] s)
      else if action_name = ''edit-preferences'' then
        (let s1 = (if \<not> prefs s then emit [Prefs_create] (s\<lparr>prefs := True\<rparr>) else s)
         in Inr (emit [Prefs_present] s1))
      else if action_name = ''toggle-message-log'' then
        (if \<not> msgwin s
         then Inr (emit [Msgwin_create, Action_set_toggled ''toggle-message-log'' True, Msgwin_show]
                     (s\<lparr>msgwin := True\<rparr>))
         else Inr (emit [Msgwin_close] s))
      else if action_name = ''show-about-dialog'' then Inr (emit [Dialog_show AboutDialog] s)
      else if action_name = ''help'' then Inr (emit [Open_uri (gtr_get_help_uri E)] s)
      else if action_name = ''toggle-main-window'' then Inr (toggleMainWindow E s)
      else if action_name = ''present-main-window'' then Inr (presentMainWindow E s)
      else Inl (Fatal_error (''Unhandled action: '' @ action_name)))"

text \<open>
  Modelled from the spec: \<^verbatim>\<open>gtr_action_activate\<close> (gtk/Actions.cc, not under src/)
  activates the named action, and an action maps to its one handler: the activation
  arrives at \<^verbatim>\<open>gtr_actions_handler\<close> with that name.
\<close>

definition gtr_action_activate :: "env \<Rightarrow> impl \<Rightarrow> string \<Rightarrow> abort + impl" where
  "gtr_action_activate E s name = actions_handler E s name"

definition winclose :: "env \<Rightarrow> impl \<Rightarrow> abort + impl" where
  "winclose E s =
     (if icon s then gtr_action_activate E s ''toggle-main-window'' else Inr (on_app_exit E s))"

definition rowChangedCB :: "impl \<Rightarrow> bool \<Rightarrow> impl" where
  "rowChangedCB s is_selected = (if is_selected then refresh_actions_soon s else s)"

text \<open>
  \<^verbatim>\<open>signal_handler\<close>, installed for SIGINT (2) and SIGTERM (15): from the second signal on
  it restores the default disposition and raises the signal again, which ends the process.
\<close>

definition signal_handler :: "env \<Rightarrow> impl \<Rightarrow> int \<Rightarrow> abort + impl" where
  "signal_handler E s sig =
     (let s1 = s\<lparr>global_sigcount := global_sigcount s + 1\<rparr>
      in if global_sigcount s1 > 1 then Inl (Killed_by_signal sig)
         else if sig = 2 \<or> sig = 15 then actions_handler E s1 ''quit''
         else Inr s1)"

subsection \<open>Changes that come from RPC\<close>

text \<open>
  \<^verbatim>\<open>tr_variantDictFind\<close> returns the first child with the key, or a null pointer.
\<close>

definition tr_variantDictFind :: "dict \<Rightarrow> tr_quark \<Rightarrow> tr_variant option" where
  "tr_variantDictFind d key = map_of d key"

text \<open>
  Modelled from the spec: \<^verbatim>\<open>tr_sessionGetSettings\<close> (libtransmission/session.cc, not
  under src/) writes every setting of the session into the dictionary it is given; a key
  the dictionary has already gets the new value in place, another one is added at the end.
\<close>

definition dict_set :: "dict \<Rightarrow> tr_quark \<Rightarrow> tr_variant \<Rightarrow> dict" where
  "dict_set d key v =
     (if key \<in> set (map fst d)
      then map (\<lambda>(k, x). if k = key then (k, v) else (k, x)) d
      else d @ [(key, v)])"

definition tr_sessionGetSettings :: "env \<Rightarrow> dict \<Rightarrow> dict" where
  "tr_sessionGetSettings E d = foldl (\<lambda>acc (k, v). dict_set acc k v) d (session_settings E)"

definition setting_changed :: "env \<Rightarrow> dict \<Rightarrow> tr_quark \<Rightarrow> tr_variant \<Rightarrow> bool" where
  "setting_changed E oldvals key newval =
     (case tr_variantDictFind oldvals key of
        None \<Rightarrow> True
      | Some oldval \<Rightarrow>
          (let a = tr_variantToStr_benc E oldval;
               b = tr_variantToStr_benc E newval
           in a \<noteq> b))"

text \<open>The loop over \<^verbatim>\<open>tr_variantDictChild(&tmp, i, &key, &newval)\<close>, i = 0, 1, ...\<close>

definition collect_changed_keys :: "env \<Rightarrow> dict \<Rightarrow> dict \<Rightarrow> tr_quark list" where
  "collect_changed_keys E oldvals tmp =
     foldl (\<lambda>changed_keys (key, newval).
              if setting_changed E oldvals key newval then changed_keys @ [key] else changed_keys)
           [] tmp"

text \<open>
  \<^verbatim>\<open>core_->signal_prefs_changed().emit(key)\<close>: the emission is recorded, and the slot this
  file connects to the signal (\<^verbatim>\<open>on_prefs_changed\<close>, in \<^verbatim>\<open>app_setup\<close>) runs.
\<close>

fun emit_prefs_changed :: "env \<Rightarrow> tr_quark list \<Rightarrow> impl \<Rightarrow> abort + impl" where
  "emit_prefs_changed E [] s = Inr s"
| "emit_prefs_changed E (changed_key # ks) s =
     then_do (on_prefs_changed E (emit [Core_prefs_changed_emit changed_key] s) changed_key)
             (emit_prefs_changed E ks)"

definition on_rpc_changed_idle ::
  "env \<Rightarrow> impl \<Rightarrow> tr_rpc_callback_type \<Rightarrow> tr_torrent_id_t \<Rightarrow> abort + impl" where
  "on_rpc_changed_idle E s type torrent_id =
     (case type of
        TR_RPC_SESSION_CLOSE \<Rightarrow> gtr_action_activate E s ''quit''
      | TR_RPC_TORRENT_ADDED \<Rightarrow>
          Inr (if core_find_torrent E torrent_id then emit [Core_add_torrent torrent_id True] s else s)
      | TR_RPC_TORRENT_REMOVING \<Rightarrow> Inr (emit [Core_remove_torrent torrent_id False] s)
      | TR_RPC_TORRENT_TRASHING \<Rightarrow> Inr (emit [Core_remove_torrent torrent_id True] s)
      | TR_RPC_SESSION_CHANGED \<Rightarrow>
          (let oldvals = pref_all s;
               tmp = tr_sessionGetSettings E [];
               changed_keys = collect_changed_keys E oldvals tmp;
               s1 = s\<lparr>pref_all := tr_sessionGetSettings E oldvals\<rparr>
           in emit_prefs_changed E changed_keys s1)
      | TR_RPC_TORRENT_CHANGED \<Rightarrow> Inr s
      | TR_RPC_TORRENT_MOVED \<Rightarrow> Inr s
      | TR_RPC_TORRENT_STARTED \<Rightarrow> Inr s
      | TR_RPC_TORRENT_STOPPED \<Rightarrow> Inr s
      | TR_RPC_SESSION_QUEUE_POSITIONS_CHANGED \<Rightarrow> Inr s
      | TR_RPC_unknown v \<Rightarrow> Inl Assert_not_reached)"

subsection \<open>The event loop\<close>

text \<open>
  What the toolkit and the session deliver to the handlers of this file on the UI
  thread. \<open>Ev_selection_changed\<close> is the selection's changed signal with the new
  selection, \<open>Ev_core_state\<close> a change of what the handlers read of the session's model
  and of the window.
\<close>

datatype ui_event =
    Ev_action string
  | Ev_winclose
  | Ev_signal int
  | Ev_core_error ErrorCode string
  | Ev_core_busy bool
  | Ev_add_torrent
  | Ev_prefs_changed tr_quark
  | Ev_drag_data selection_data
  | Ev_selection_changed "torrent_row list"
  | Ev_row_changed bool
  | Ev_timer
  | Ev_main_window_focus_in
  | Ev_details_closed string
  | Ev_prefs_closed
  | Ev_msgwin_closed
  | Ev_core_state nat nat "torrent_row list" bool

definition handle :: "env \<Rightarrow> ui_event \<Rightarrow> impl \<Rightarrow> abort + impl" where
  "handle E ev s =
     (case ev of
        Ev_action name \<Rightarrow> actions_handler E s name
      | Ev_winclose \<Rightarrow> winclose E s
      | Ev_signal sig \<Rightarrow> signal_handler E s sig
      | Ev_core_error code msg \<Rightarrow> on_core_error E s code msg
      | Ev_core_busy busy \<Rightarrow> Inr (emit [Wind_set_busy busy] s)
      | Ev_add_torrent \<Rightarrow> Inr (on_add_torrent s)
      | Ev_prefs_changed key \<Rightarrow> on_prefs_changed E s key
      | Ev_drag_data selection \<Rightarrow> Inr (on_drag_data_received E s selection)
      | Ev_selection_changed rows \<Rightarrow> Inr (refresh_actions_soon (s\<lparr>sel := rows\<rparr>))
      | Ev_row_changed is_selected \<Rightarrow> Inr (rowChangedCB s is_selected)
      | Ev_timer \<Rightarrow> Inr (if timer s then update_model_loop s else s)
      | Ev_main_window_focus_in \<Rightarrow> Inr (on_main_window_focus_in s)
      | Ev_details_closed key \<Rightarrow> Inr (s\<lparr>details := (details s)(key := None)\<rparr>)
      | Ev_prefs_closed \<Rightarrow> Inr (s\<lparr>prefs := False\<rparr>)
      | Ev_msgwin_closed \<Rightarrow>
          Inr ((emit [Action_set_toggled ''toggle-message-log'' False] s)\<lparr>msgwin := False\<rparr>)
      | Ev_core_state n_total n_active rows visible \<Rightarrow>
          Inr (s\<lparr>core_torrent_count := n_total, core_active_torrent_count := n_active,
                 model_rows := rows, wind_visible := visible\<rparr>))"

definition run_idle :: "env \<Rightarrow> idle_callback \<Rightarrow> impl \<Rightarrow> abort + impl" where
  "run_idle E cb s =
     (case cb of
        Idle_refresh_actions \<Rightarrow> Inr (refresh_actions s)
      | Idle_update_model_once \<Rightarrow> Inr (update_model_once s)
      | Idle_on_session_closed \<Rightarrow> Inr (on_session_closed s)
      | Idle_on_rpc_changed type torrent_id \<Rightarrow> on_rpc_changed_idle E s type torrent_id)"

text \<open>
  One step of the process. The UI thread runs a handler to its end (\<open>ui\<close>) or
  dispatches an idle source, which is removed as every callback here returns false
  (\<open>idle\<close>); a detached thread runs its next statement: the blocking
  \<^verbatim>\<open>tr_sessionClose\<close> returns (\<open>thread_close\<close>), or it attaches an idle source
  (\<open>thread_idle\<close>); the engine's RPC thread calls \<^verbatim>\<open>on_rpc_changed\<close>, which attaches an
  idle source for \<^verbatim>\<open>on_rpc_changed_idle\<close> (\<open>rpc_changed\<close>). A handler that aborts ends
  the process: it has no next state.
\<close>

inductive step :: "impl \<Rightarrow> impl \<Rightarrow> bool" where
  ui: "handle E ev s = Inr s' \<Longrightarrow> step s s'"
| idle: "idle_queue s = pre @ cb # post \<Longrightarrow>
         run_idle E cb (s\<lparr>idle_queue := pre @ post\<rparr>) = Inr s' \<Longrightarrow> step s s'"
| thread_close: "i < length (threads s) \<Longrightarrow> threads s ! i = Op_tr_sessionClose # ops \<Longrightarrow>
         step s (s\<lparr>threads := (threads s)[i := ops], trace := trace s @ [Tr_sessionClose_returned]\<rparr>)"
| thread_idle: "i < length (threads s) \<Longrightarrow> threads s ! i = Op_idle_connect cb # ops \<Longrightarrow>
         step s (s\<lparr>threads := (threads s)[i := ops], idle_queue := idle_queue s @ [cb]\<rparr>)"
| rpc_changed: "step s (s\<lparr>idle_queue := idle_queue s @ [Idle_on_rpc_changed type torrent_id]\<rparr>)"

text \<open>
  The state when \<^verbatim>\<open>on_startup\<close> has returned: the window and the session exist, nothing
  is closing, no thread has been detached, no idle source for \<^verbatim>\<open>on_session_closed\<close>
  exists, and the trace starts empty.
\<close>

definition started :: "impl \<Rightarrow> bool" where
  "started s =
     (wind s \<and> core s \<and> \<not> is_closing s \<and> threads s = [] \<and> trace s = []
      \<and> Idle_on_session_closed \<notin> set (idle_queue s))"

inductive reachable :: "impl \<Rightarrow> bool" where
  start: "started s \<Longrightarrow> reachable s"
| next_step: "reachable s \<Longrightarrow> step s s' \<Longrightarrow> reachable s'"

subsection \<open>Reading the trace, and a concrete state\<close>

text \<open>
  The value the last \<^verbatim>\<open>gtr_action_set_sensitive(name, ...)\<close> of a trace gave the action.
\<close>

fun action_sensitive :: "string \<Rightarrow> effect list \<Rightarrow> bool option" where
  "action_sensitive name [] = None"
| "action_sensitive name (e # es) =
     (case action_sensitive name es of
        Some b \<Rightarrow> Some b
      | None \<Rightarrow>
          (case e of
             Action_set_sensitive n b \<Rightarrow> if n = name then Some b else None
           | _ \<Rightarrow> None))"

text \<open>A row, an environment and a started application to evaluate the handlers on.\<close>

definition example_row :: "tr_torrent_id_t \<Rightarrow> tr_torrent_activity \<Rightarrow> torrent_row" where
  "example_row n a =
     \<lparr>col_torrent_id = n,
      col_torrent = \<lparr>tr_torrentId = n, tr_torrentCanManualUpdate = False\<rparr>,
      col_activity = a\<rparr>"

definition example_env :: env where
  "example_env =
     \<lparr>gtr_pref_int_get = (\<lambda>d k. 0),
      gtr_pref_flag_get = (\<lambda>d k. k = ''start-added-torrents''),
      gtr_pref_string_get = (\<lambda>d k. []),
      gtr_pref_double_get = (\<lambda>d k. 0),
      tr_variantToStr_benc =
        (\<lambda>v. case v of
               V_int n \<Rightarrow> ''i'' @ show_int n @ ''e''
             | V_bool b \<Rightarrow> (if b then ''i1e'' else ''i0e'')
             | V_str str \<Rightarrow> show_nat (length str) @ '':'' @ str
             | _ \<Rightarrow> ''le''),
      path_get_basename = (\<lambda>path. rev (takeWhile (\<lambda>c. c \<noteq> CHR ''/'') (rev path))),
      unicode_bullet = ''*'',
      core_add_from_url = (\<lambda>url. True),
      core_find_torrent = (\<lambda>n. True),
      gtr_get_help_uri = ''https://transmissionbt.com/help/'',
      session_settings = [],
      global_locale = classic_locale\<rparr>"

definition example_impl :: impl where
  "example_impl =
     \<lparr>start_paused = False,
      is_iconified = False,
      is_closing = False,
      timer = True,
      update_model_soon_tag = False,
      refresh_actions_tag = False,
      icon = False,
      wind = True,
      core = True,
      msgwin = False,
      prefs = False,
      error_list = [],
      duplicates_list = [],
      details = Map.empty,
      sel = [],
      core_torrent_count = 0,
      core_active_torrent_count = 0,
      model_rows = [],
      wind_visible = True,
      pref_all = [],
      global_sigcount = 0,
      idle_queue = [],
      threads = [],
      trace = []\<rparr>"

text \<open>The rows \<^verbatim>\<open>get_selected_torrent_counts\<close> counts as queued and as stopped.\<close>

abbreviation (input) is_queued :: "torrent_row \<Rightarrow> bool" where
  "is_queued \<equiv> (\<lambda>row. col_activity row = TR_STATUS_DOWNLOAD_WAIT \<or> col_activity row = TR_STATUS_SEED_WAIT)"

abbreviation (input) is_stopped :: "torrent_row \<Rightarrow> bool" where
  "is_stopped \<equiv> (\<lambda>row. col_activity row = TR_STATUS_STOPPED)"

text \<open>The case labels of the switch of \<^verbatim>\<open>on_prefs_changed\<close>.\<close>

definition handled_prefs :: "tr_quark list" where
  "handled_prefs =
     [''encryption'', ''default-trackers'', ''download-dir'', ''message-level'', ''peer-port'',
      ''blocklist-enabled'', ''blocklist-url'', ''show-notification-area-icon'',
      ''speed-limit-down-enabled'', ''speed-limit-down'', ''speed-limit-up-enabled'',
      ''speed-limit-up'', ''ratio-limit-enabled'', ''ratio-limit'', ''idle-seeding-limit'',
      ''idle-seeding-limit-enabled'', ''port-forwarding-enabled'', ''pex-enabled'',
      ''rename-partial-files'', ''download-queue-size'', ''queue-stalled-minutes'', ''dht-enabled'',
      ''utp-enabled'', ''lpd-enabled'', ''rpc-port'', ''rpc-enabled'', ''rpc-whitelist'',
      ''rpc-whitelist-enabled'', ''rpc-username'', ''rpc-password'',
      ''rpc-authentication-required'', ''alt-speed-up'', ''alt-speed-down'', ''alt-speed-enabled'',
      ''alt-speed-time-begin'', ''alt-speed-time-end'', ''alt-speed-time-enabled'',
      ''alt-speed-time-day'', ''peer-port-random-on-start'', ''incomplete-dir'',
      ''incomplete-dir-enabled'', ''script-torrent-done-enabled'', ''script-torrent-done-filename'',
      ''script-torrent-done-seeding-enabled'', ''script-torrent-done-seeding-filename'',
      ''start-added-torrents'', ''trash-original-torrent-files'']"

text \<open>The keys of the \<^verbatim>\<open>signal_prefs_changed\<close> emissions of a trace, in order.\<close>

fun prefs_changed_emissions :: "effect list \<Rightarrow> tr_quark list" where
  "prefs_changed_emissions [] = []"
| "prefs_changed_emissions (e # es) =
     (case e of
        Core_prefs_changed_emit key \<Rightarrow> key # prefs_changed_emissions es
      | _ \<Rightarrow> prefs_changed_emissions es)"

text \<open>The dialogs of a trace, in order: primary and secondary text.\<close>

fun message_dialogs :: "effect list \<Rightarrow> (string \<times> string) list" where
  "message_dialogs [] = []"
| "message_dialogs (e # es) =
     (case e of
        Message_dialog primary secondary \<Rightarrow> (primary, secondary) # message_dialogs es
      | _ \<Rightarrow> message_dialogs es)"

text \<open>A sequence of \<^verbatim>\<open>signal_add_error\<close> emissions delivered to \<^verbatim>\<open>on_core_error\<close>.\<close>

fun on_core_errors :: "env \<Rightarrow> impl \<Rightarrow> (ErrorCode \<times> string) list \<Rightarrow> abort + impl" where
  "on_core_errors E s [] = Inr s"
| "on_core_errors E s ((code, msg) # evs) =
     then_do (on_core_error E s code msg) (\<lambda>s'. on_core_errors E s' evs)"

text \<open>
  The two events of leaving in a trace, in order: \<^verbatim>\<open>tr_sessionClose\<close> has returned, and
  \<^verbatim>\<open>app_.release()\<close>, the last statement of \<^verbatim>\<open>on_session_closed\<close>.
\<close>

definition exit_events :: "effect list \<Rightarrow> effect list" where
  "exit_events es = filter (\<lambda>e. e = App_release \<or> e = Tr_sessionClose_returned) es"

text \<open>
  What leaving the application depends on: the closing flag, whether the window and the
  session object still exist, the detached threads, the events of leaving so far, and
  whether an idle source for \<^verbatim>\<open>on_session_closed\<close> is attached.
\<close>

definition exit_view ::
  "impl \<Rightarrow> bool \<times> bool \<times> bool \<times> thread_op list list \<times> effect list \<times> bool" where
  "exit_view s =
     (is_closing s, wind s, core s, threads s, exit_events (trace s),
      Idle_on_session_closed \<in> set (idle_queue s))"

text \<open>
  How a handler of the UI thread can change that view: not at all, or, when nothing is
  closing yet, by starting to leave (\<^verbatim>\<open>on_app_exit\<close> sets the flag and detaches the
  thread).
\<close>

definition start_exit ::
  "bool \<times> bool \<times> bool \<times> thread_op list list \<times> effect list \<times> bool
   \<Rightarrow> bool \<times> bool \<times> bool \<times> thread_op list list \<times> effect list \<times> bool" where
  "start_exit v =
     (case v of (closing, w, c, ts, ee, q) \<Rightarrow>
        (True, w, c, ts @ [[Op_tr_sessionClose, Op_idle_connect Idle_on_session_closed]], ee, q))"

definition ui_moves ::
  "bool \<times> bool \<times> bool \<times> thread_op list list \<times> effect list \<times> bool
   \<Rightarrow> bool \<times> bool \<times> bool \<times> thread_op list list \<times> effect list \<times> bool \<Rightarrow> bool" where
  "ui_moves v v' = (v' = v \<or> (\<not> fst v \<and> v' = start_exit v))"

text \<open>
  The invariant of leaving. A detached thread has its two statements to run, or only the
  second one and \<^verbatim>\<open>tr_sessionClose\<close> has returned, or none; an idle source for
  \<^verbatim>\<open>on_session_closed\<close> is attached only after that return; the first event of leaving is
  that return; and the window and the session object are gone only after it.
\<close>

definition thread_ok :: "effect list \<Rightarrow> thread_op list \<Rightarrow> bool" where
  "thread_ok ee t =
     (t = [] \<or> t = [Op_tr_sessionClose, Op_idle_connect Idle_on_session_closed]
      \<or> (t = [Op_idle_connect Idle_on_session_closed] \<and> Tr_sessionClose_returned \<in> set ee))"

definition exit_inv ::
  "bool \<times> bool \<times> bool \<times> thread_op list list \<times> effect list \<times> bool \<Rightarrow> bool" where
  "exit_inv v =
     (case v of (closing, w, c, ts, ee, q) \<Rightarrow>
        (q \<longrightarrow> Tr_sessionClose_returned \<in> set ee)
        \<and> (\<forall>t\<in>set ts. thread_ok ee t)
        \<and> (ee = [] \<or> hd ee = Tr_sessionClose_returned)
        \<and> (\<not> w \<or> \<not> c \<longrightarrow> Tr_sessionClose_returned \<in> set ee))"

section \<open>Properties\<close>

subsection \<open>Traces\<close>

lemma action_sensitive_append:
  "action_sensitive name (xs @ ys) =
     (case action_sensitive name ys of Some b \<Rightarrow> Some b | None \<Rightarrow> action_sensitive name xs)"
  by (induction xs) (auto split: option.splits)

lemma trace_disconnect_refresh_actions_tag [simp]: "trace (disconnect_refresh_actions_tag s) = trace s"
  by (simp add: disconnect_refresh_actions_tag_def)

lemma trace_emit [simp]: "trace (emit es s) = trace s @ es"
  by (simp add: emit_def)

subsection \<open>Selection counts (C10)\<close>

lemma foldl_count_row:
  "foldl count_row c rows =
     \<lparr>total_count = total_count c + int (length rows),
      queued_count = queued_count c + int (length (filter is_queued rows)),
      stopped_count = stopped_count c + int (length (filter is_stopped rows))\<rparr>"
proof (induction rows arbitrary: c)
  case Nil
  show ?case by simp
next
  case (Cons row rows)
  show ?case
    unfolding foldl_Cons Cons.IH
    by (simp add: count_row_def Let_def)
qed

lemma counts_eq:
  "get_selected_torrent_counts s =
     \<lparr>total_count = int (length (sel s)),
      queued_count = int (length (filter is_queued (sel s))),
      stopped_count = int (length (filter is_stopped (sel s)))\<rparr>"
  by (simp add: get_selected_torrent_counts_def foldl_count_row)

lemma disjoint_filters_le:
  "(\<And>x. \<not> (P x \<and> Q x)) \<Longrightarrow> length (filter P xs) + length (filter Q xs) \<le> length xs"
  by (induction xs) auto

lemma filter_less_iff: "(length (filter P xs) < length xs) = (\<exists>x\<in>set xs. \<not> P x)"
  by (induction xs) (auto simp: less_Suc_eq_le)

lemma filter_pos_iff: "(0 < length (filter P xs)) = (\<exists>x\<in>set xs. P x)"
  by (induction xs) auto

lemma int_sum_pos: "(0 < int a + int b) = (0 < a \<or> 0 < b)"
  by auto

text \<open>
  C10. For every selection, the counts of \<^verbatim>\<open>get_selected_torrent_counts\<close> are not
  negative and \<open>queued_count + stopped_count \<le> total_count\<close>; when the application is not
  closing, \<^verbatim>\<open>refresh_actions\<close> makes torrent-stop sensitive exactly when some selected
  torrent is not stopped, torrent-start exactly when some selected torrent is stopped, and
  torrent-start-now exactly when some selected torrent is stopped or queued.
\<close>

theorem selected_counts_bounds:
  "0 \<le> total_count (get_selected_torrent_counts s)
   \<and> 0 \<le> queued_count (get_selected_torrent_counts s)
   \<and> 0 \<le> stopped_count (get_selected_torrent_counts s)
   \<and> queued_count (get_selected_torrent_counts s) + stopped_count (get_selected_torrent_counts s)
       \<le> total_count (get_selected_torrent_counts s)
   \<and> (\<not> is_closing s \<longrightarrow>
        action_sensitive ''torrent-stop'' (trace (refresh_actions s))
          = Some (\<exists>row\<in>set (sel s). col_activity row \<noteq> TR_STATUS_STOPPED)
      \<and> action_sensitive ''torrent-start'' (trace (refresh_actions s))
          = Some (\<exists>row\<in>set (sel s). col_activity row = TR_STATUS_STOPPED)
      \<and> action_sensitive ''torrent-start-now'' (trace (refresh_actions s))
          = Some (\<exists>row\<in>set (sel s). col_activity row = TR_STATUS_STOPPED
                    \<or> col_activity row = TR_STATUS_DOWNLOAD_WAIT \<or> col_activity row = TR_STATUS_SEED_WAIT))"
proof -
  let ?c = "get_selected_torrent_counts s"
  have le: "length (filter is_queued (sel s)) + length (filter is_stopped (sel s)) \<le> length (sel s)"
    by (rule disjoint_filters_le) auto
  have bounds: "queued_count ?c + stopped_count ?c \<le> total_count ?c"
    using le by (simp add: counts_eq)
  have stop: "(stopped_count ?c < total_count ?c)
              = (\<exists>row\<in>set (sel s). col_activity row \<noteq> TR_STATUS_STOPPED)"
    by (simp add: counts_eq filter_less_iff)
  have start: "(stopped_count ?c > 0)
              = (\<exists>row\<in>set (sel s). col_activity row = TR_STATUS_STOPPED)"
    using filter_pos_iff [of is_stopped "sel s"] by (simp add: counts_eq)
  have now: "(stopped_count ?c + queued_count ?c > 0)
              = (\<exists>row\<in>set (sel s). col_activity row = TR_STATUS_STOPPED
                    \<or> col_activity row = TR_STATUS_DOWNLOAD_WAIT \<or> col_activity row = TR_STATUS_SEED_WAIT)"
  proof -
    have "(stopped_count ?c + queued_count ?c > 0)
          = (0 < int (length (filter is_stopped (sel s))) + int (length (filter is_queued (sel s))))"
      by (simp add: counts_eq)
    also have "\<dots> = (0 < length (filter is_stopped (sel s)) \<or> 0 < length (filter is_queued (sel s)))"
      by (rule int_sum_pos)
    also have "\<dots> = (\<exists>row\<in>set (sel s). col_activity row = TR_STATUS_STOPPED
                    \<or> col_activity row = TR_STATUS_DOWNLOAD_WAIT \<or> col_activity row = TR_STATUS_SEED_WAIT)"
      unfolding filter_pos_iff by blast
    finally show ?thesis .
  qed
  have sens: "\<not> is_closing s \<Longrightarrow>
        action_sensitive ''torrent-stop'' (trace (refresh_actions s))
          = Some (stopped_count ?c < total_count ?c)
      \<and> action_sensitive ''torrent-start'' (trace (refresh_actions s))
          = Some (stopped_count ?c > 0)
      \<and> action_sensitive ''torrent-start-now'' (trace (refresh_actions s))
          = Some (stopped_count ?c + queued_count ?c > 0)"
    by (simp add: refresh_actions_def Let_def action_sensitive_append)
  have nonneg: "0 \<le> total_count ?c \<and> 0 \<le> queued_count ?c \<and> 0 \<le> stopped_count ?c"
    by (simp add: counts_eq)
  show ?thesis
    using bounds nonneg sens unfolding stop start now by blast
qed

theorem selected_counts_bounds_witness:
  "get_selected_torrent_counts
     (example_impl\<lparr>sel := [example_row 1 TR_STATUS_STOPPED, example_row 2 TR_STATUS_DOWNLOAD_WAIT,
                            example_row 3 TR_STATUS_SEED]\<rparr>)
     = \<lparr>total_count = 3, queued_count = 1, stopped_count = 1\<rparr>
   \<and> \<not> is_closing (example_impl\<lparr>sel := [example_row 1 TR_STATUS_STOPPED, example_row 2 TR_STATUS_DOWNLOAD_WAIT,
                            example_row 3 TR_STATUS_SEED]\<rparr>)
   \<and> action_sensitive ''torrent-stop''
        (trace (refresh_actions (example_impl\<lparr>sel := [example_row 1 TR_STATUS_STOPPED,
           example_row 2 TR_STATUS_DOWNLOAD_WAIT, example_row 3 TR_STATUS_SEED]\<rparr>))) = Some True
   \<and> action_sensitive ''torrent-start''
        (trace (refresh_actions (example_impl\<lparr>sel := [example_row 1 TR_STATUS_STOPPED,
           example_row 2 TR_STATUS_DOWNLOAD_WAIT, example_row 3 TR_STATUS_SEED]\<rparr>))) = Some True
   \<and> action_sensitive ''torrent-start-now''
        (trace (refresh_actions (example_impl\<lparr>sel := [example_row 1 TR_STATUS_STOPPED,
           example_row 2 TR_STATUS_DOWNLOAD_WAIT, example_row 3 TR_STATUS_SEED]\<rparr>))) = Some True"
  using selected_counts_bounds
    [of "example_impl\<lparr>sel := [example_row 1 TR_STATUS_STOPPED, example_row 2 TR_STATUS_DOWNLOAD_WAIT,
                            example_row 3 TR_STATUS_SEED]\<rparr>"]
  by (simp add: example_impl_def example_row_def get_selected_torrent_counts_def count_row_def)

subsection \<open>The key of a details dialog (C4)\<close>

lemma digit_char_cases:
  "d < 10 \<Longrightarrow> digit_char d \<in> set ''0123456789''"
  unfolding digit_char_def by (rule nth_mem) simp

lemma digit_char_inj: "a < 10 \<Longrightarrow> b < 10 \<Longrightarrow> digit_char a = digit_char b \<Longrightarrow> a = b"
proof -
  assume a: "a < 10" and b: "b < 10" and e: "digit_char a = digit_char b"
  have d: "distinct ''0123456789''" by simp
  have "''0123456789'' ! a = ''0123456789'' ! b" using e by (simp only: digit_char_def)
  then show "a = b" using d a b by (simp add: nth_eq_iff_index_eq)
qed

lemma show_nat_digits: "set (show_nat n) \<subseteq> set ''0123456789''"
proof (induction n rule: show_nat.induct)
  case (1 n)
  show ?case
  proof (cases "n < 10")
    case True
    then show ?thesis using digit_char_cases [of n] by (subst show_nat.simps) simp
  next
    case False
    have "n mod 10 < 10" by simp
    then have "digit_char (n mod 10) \<in> set ''0123456789''" by (rule digit_char_cases)
    then show ?thesis using False 1 by (subst show_nat.simps) simp
  qed
qed

lemma show_nat_nonempty: "show_nat n \<noteq> []"
  by (subst show_nat.simps) simp

lemma show_nat_inj: "show_nat m = show_nat n \<Longrightarrow> m = n"
proof (induction m arbitrary: n rule: show_nat.induct)
  case (1 m)
  show ?case
  proof (cases "m < 10")
    case mlt: True
    show ?thesis
    proof (cases "n < 10")
      case True
      with mlt "1.prems" show ?thesis
        by (simp add: show_nat.simps [of m] show_nat.simps [of n] digit_char_inj)
    next
      case False
      with mlt "1.prems" show_nat_nonempty [of "n div 10"] show ?thesis
        by (simp add: show_nat.simps [of m] show_nat.simps [of n])
    qed
  next
    case mge: False
    show ?thesis
    proof (cases "n < 10")
      case True
      with mge "1.prems" show_nat_nonempty [of "m div 10"] show ?thesis
        by (simp add: show_nat.simps [of m] show_nat.simps [of n])
    next
      case False
      with mge "1.prems" have eq: "show_nat (m div 10) = show_nat (n div 10)"
        and dg: "digit_char (m mod 10) = digit_char (n mod 10)"
        by (simp_all add: show_nat.simps [of m] show_nat.simps [of n])
      from "1.IH" [OF mge eq] have d: "m div 10 = n div 10" .
      from dg have r: "m mod 10 = n mod 10" by (intro digit_char_inj) simp_all
      from d r show ?thesis by (metis div_mult_mod_eq)
    qed
  qed
qed

lemma show_nat_no_space: "CHR '' '' \<notin> set (show_nat n)"
proof -
  have "CHR '' '' \<notin> set ''0123456789''" by simp
  then show ?thesis using show_nat_digits [of n] by blast
qed

lemma show_int_no_space: "CHR '' '' \<notin> set (show_int i)"
  by (simp add: show_int_def show_nat_no_space)

lemma show_nat_no_minus: "hd (show_nat n) \<noteq> CHR ''-''"
proof -
  have "hd (show_nat n) \<in> set (show_nat n)" using show_nat_nonempty by simp
  then have "hd (show_nat n) \<in> set ''0123456789''" using show_nat_digits [of n] by blast
  moreover have "CHR ''-'' \<notin> set ''0123456789''" by simp
  ultimately show ?thesis by metis
qed

lemma show_int_inj: "show_int i = show_int j \<Longrightarrow> i = j"
proof -
  assume e: "show_int i = show_int j"
  consider "i < 0" "j < 0" | "i < 0" "\<not> j < 0" | "\<not> i < 0" "j < 0" | "\<not> i < 0" "\<not> j < 0" by blast
  then show "i = j"
  proof cases
    case 1
    with e have "show_nat (nat (- i)) = show_nat (nat (- j))" by (simp add: show_int_def)
    then have "nat (- i) = nat (- j)" by (rule show_nat_inj)
    with 1 show ?thesis by simp
  next
    case 2
    with e have "CHR ''-'' # show_nat (nat (- i)) = show_nat (nat j)" by (simp add: show_int_def)
    then have "hd (show_nat (nat j)) = CHR ''-''" by (metis list.sel(1))
    with show_nat_no_minus show ?thesis by blast
  next
    case 3
    with e have "CHR ''-'' # show_nat (nat (- j)) = show_nat (nat i)" by (simp add: show_int_def)
    then have "hd (show_nat (nat i)) = CHR ''-''" by (metis list.sel(1))
    with show_nat_no_minus show ?thesis by blast
  next
    case 4
    with e have "show_nat (nat i) = show_nat (nat j)" by (simp add: show_int_def)
    then have "nat i = nat j" by (rule show_nat_inj)
    with 4 show ?thesis by simp
  qed
qed



















lemma selected_ids: "get_selected_torrent_ids s = map col_torrent_id (sel s)"
proof -
  have "foldl (\<lambda>ids row. ids @ [col_torrent_id row]) acc rows = acc @ map col_torrent_id rows" for acc rows
    by (induction rows arbitrary: acc) simp_all
  from this [of "[]" "sel s"] show ?thesis by (simp add: get_selected_torrent_ids_def)
qed

lemma show_nat_digit: "n < 10 \<Longrightarrow> show_nat n = [digit_char n]"
  by (subst show_nat.simps) simp





subsection \<open>Requests for the selected torrents (C5)\<close>

lemma foldl_ids:
  "foldl (\<lambda>l row. l @ [V_int (tr_torrentId (col_torrent row))]) acc rows
     = acc @ map (\<lambda>row. V_int (tr_torrentId (col_torrent row))) rows"
  by (induction rows arbitrary: acc) simp_all

lemma call_rpc_eq:
  "call_rpc_for_selected_torrents s m =
     (if sel s = [] then (s, False)
      else (emit [Rpc_request_exec
                    (V_dict [(''method'', V_str m),
                             (''arguments'',
                              V_dict [(''ids'', V_list (map (\<lambda>row. V_int (tr_torrentId (col_torrent row)))
                                                          (sel s)))])])] s,
            True))"
  by (simp add: call_rpc_for_selected_torrents_def foldl_ids Let_def)

lemma rpc_action:
  "name \<in> set [''torrent-start'', ''torrent-start-now'', ''torrent-stop'', ''torrent-reannounce'',
                ''torrent-verify'', ''queue-move-top'', ''queue-move-up'', ''queue-move-down'',
                ''queue-move-bottom''] \<Longrightarrow>
   actions_handler E s name =
     (case call_rpc_for_selected_torrents s name of
        (s', changed) \<Rightarrow> Inr (if changed then update_model_soon s' else s'))"
  apply (simp only: list.set insert_iff empty_iff)
  apply (elim disjE)
  apply (simp_all add: actions_handler_def)
  done

text \<open>
  C5. \<^verbatim>\<open>call_rpc_for_selected_torrents\<close> executes a request exactly when something is
  selected and returns whether it did; the request is the dictionary whose
  \<open>method\<close> is the given name and whose \<open>arguments.ids\<close> is the list of the
  selected torrents' identifiers in selection order; and \<^verbatim>\<open>actions_handler\<close> passes the
  name of each of the nine torrent actions on as the method.
\<close>

theorem call_rpc_for_selected_torrents_request:
  "call_rpc_for_selected_torrents s m =
     (if sel s = [] then (s, False)
      else (emit [Rpc_request_exec
                    (V_dict [(''method'', V_str m),
                             (''arguments'',
                              V_dict [(''ids'', V_list (map (\<lambda>row. V_int (tr_torrentId (col_torrent row)))
                                                          (sel s)))])])] s,
            True))
   \<and> snd (call_rpc_for_selected_torrents s m) = (sel s \<noteq> [])
   \<and> (sel s \<noteq> [] \<longrightarrow>
        (\<exists>top args. fst (call_rpc_for_selected_torrents s m) = emit [Rpc_request_exec (V_dict top)] s
           \<and> tr_variantDictFind top ''method'' = Some (V_str m)
           \<and> tr_variantDictFind top ''arguments'' = Some (V_dict args)
           \<and> tr_variantDictFind args ''ids''
               = Some (V_list (map (\<lambda>row. V_int (tr_torrentId (col_torrent row))) (sel s)))))
   \<and> (name \<in> set [''torrent-start'', ''torrent-start-now'', ''torrent-stop'', ''torrent-reannounce'',
                ''torrent-verify'', ''queue-move-top'', ''queue-move-up'', ''queue-move-down'',
                ''queue-move-bottom''] \<longrightarrow>
        actions_handler E s name =
          (case call_rpc_for_selected_torrents s name of
             (s', changed) \<Rightarrow> Inr (if changed then update_model_soon s' else s')))"
proof (intro conjI impI)
  show "call_rpc_for_selected_torrents s m =
     (if sel s = [] then (s, False)
      else (emit [Rpc_request_exec
                    (V_dict [(''method'', V_str m),
                             (''arguments'',
                              V_dict [(''ids'', V_list (map (\<lambda>row. V_int (tr_torrentId (col_torrent row)))
                                                          (sel s)))])])] s,
            True))"
    by (rule call_rpc_eq)
next
  show "snd (call_rpc_for_selected_torrents s m) = (sel s \<noteq> [])"
    by (simp add: call_rpc_eq)
next
  assume ne: "sel s \<noteq> []"
  let ?ids = "V_list (map (\<lambda>row. V_int (tr_torrentId (col_torrent row))) (sel s))"
  have "fst (call_rpc_for_selected_torrents s m)
          = emit [Rpc_request_exec (V_dict [(''method'', V_str m), (''arguments'', V_dict [(''ids'', ?ids)])])] s"
    using ne by (simp add: call_rpc_eq)
  moreover have "tr_variantDictFind [(''method'', V_str m), (''arguments'', V_dict [(''ids'', ?ids)])] ''method''
                   = Some (V_str m)"
    by (simp add: tr_variantDictFind_def)
  moreover have "tr_variantDictFind [(''method'', V_str m), (''arguments'', V_dict [(''ids'', ?ids)])] ''arguments''
                   = Some (V_dict [(''ids'', ?ids)])"
    by (simp add: tr_variantDictFind_def)
  moreover have "tr_variantDictFind [(''ids'', ?ids)] ''ids'' = Some ?ids"
    by (simp add: tr_variantDictFind_def)
  ultimately show "\<exists>top args. fst (call_rpc_for_selected_torrents s m) = emit [Rpc_request_exec (V_dict top)] s
           \<and> tr_variantDictFind top ''method'' = Some (V_str m)
           \<and> tr_variantDictFind top ''arguments'' = Some (V_dict args)
           \<and> tr_variantDictFind args ''ids'' = Some ?ids"
    by (intro exI conjI)
next
  assume "name \<in> set [''torrent-start'', ''torrent-start-now'', ''torrent-stop'', ''torrent-reannounce'',
                ''torrent-verify'', ''queue-move-top'', ''queue-move-up'', ''queue-move-down'',
                ''queue-move-bottom'']"
  then show "actions_handler E s name =
          (case call_rpc_for_selected_torrents s name of
             (s', changed) \<Rightarrow> Inr (if changed then update_model_soon s' else s'))"
    by (rule rpc_action)
qed

theorem call_rpc_for_selected_torrents_request_witness:
  "sel (example_impl\<lparr>sel := [example_row 7 TR_STATUS_SEED, example_row 4 TR_STATUS_DOWNLOAD]\<rparr>) \<noteq> []
   \<and> ''torrent-stop'' \<in> set [''torrent-start'', ''torrent-start-now'', ''torrent-stop'',
         ''torrent-reannounce'', ''torrent-verify'', ''queue-move-top'', ''queue-move-up'',
         ''queue-move-down'', ''queue-move-bottom'']
   \<and> actions_handler example_env
        (example_impl\<lparr>sel := [example_row 7 TR_STATUS_SEED, example_row 4 TR_STATUS_DOWNLOAD]\<rparr>)
        ''torrent-stop''
       = Inr (update_model_soon
               (emit [Rpc_request_exec
                        (V_dict [(''method'', V_str ''torrent-stop''),
                                 (''arguments'', V_dict [(''ids'', V_list [V_int 7, V_int 4])])])]
                  (example_impl\<lparr>sel := [example_row 7 TR_STATUS_SEED, example_row 4 TR_STATUS_DOWNLOAD]\<rparr>)))"
  using call_rpc_for_selected_torrents_request
    [of "example_impl\<lparr>sel := [example_row 7 TR_STATUS_SEED, example_row 4 TR_STATUS_DOWNLOAD]\<rparr>"
        "''torrent-stop''" "''torrent-stop''" example_env]
  by (simp add: example_row_def)

subsection \<open>Unexpected enum values (C6)\<close>

lemma prefs_changed_emissions_append [simp]:
  "prefs_changed_emissions (xs @ ys) = prefs_changed_emissions xs @ prefs_changed_emissions ys"
  by (induction xs) (simp_all split: effect.splits)

lemma message_dialogs_append [simp]:
  "message_dialogs (xs @ ys) = message_dialogs xs @ message_dialogs ys"
  by (induction xs) (simp_all split: effect.splits)

lemma exit_events_append [simp]: "exit_events (xs @ ys) = exit_events xs @ exit_events ys"
  by (simp add: exit_events_def)

lemma on_prefs_changed_unhandled:
  "key \<notin> set handled_prefs \<Longrightarrow> on_prefs_changed E s key = Inr s"
  by (simp add: on_prefs_changed_def handled_prefs_def)

lemma on_prefs_changed_handled:
  "key \<in> set handled_prefs \<Longrightarrow>
   (case on_prefs_changed E s key of
     Inl a \<Rightarrow> False
   | Inr s' \<Rightarrow> s'\<lparr>icon := False, trace := []\<rparr> = s\<lparr>icon := False, trace := []\<rparr>
               \<and> exit_events (trace s') = exit_events (trace s)
               \<and> message_dialogs (trace s') = message_dialogs (trace s)
               \<and> prefs_changed_emissions (trace s') = prefs_changed_emissions (trace s))"
  apply (simp only: handled_prefs_def list.set insert_iff empty_iff)
  apply (elim disjE)
  apply (simp_all add: on_prefs_changed_def Let_def emit_def exit_events_def)
  done

lemma on_prefs_changed_frame:
  "case on_prefs_changed E s key of
     Inl a \<Rightarrow> False
   | Inr s' \<Rightarrow> s'\<lparr>icon := False, trace := []\<rparr> = s\<lparr>icon := False, trace := []\<rparr>
               \<and> exit_events (trace s') = exit_events (trace s)
               \<and> message_dialogs (trace s') = message_dialogs (trace s)
               \<and> prefs_changed_emissions (trace s') = prefs_changed_emissions (trace s)"
proof (cases "key \<in> set handled_prefs")
  case True
  then show ?thesis by (rule on_prefs_changed_handled)
next
  case False
  then show ?thesis by (simp add: on_prefs_changed_unhandled)
qed

lemma on_prefs_changed_returns: "\<exists>s'. on_prefs_changed E s key = Inr s'"
  using on_prefs_changed_frame [where E = E and s = s and key = key] by (cases "on_prefs_changed E s key") simp_all

text \<open>
  C6, as the code has it. An RPC callback type that is none of the ten enumerators makes
  \<^verbatim>\<open>on_rpc_changed_idle\<close> abort at \<^verbatim>\<open>g_assert_not_reached\<close>, and so does an error code
  that is none of the three for \<^verbatim>\<open>on_core_error\<close>; \<^verbatim>\<open>on_prefs_changed\<close> returns normally
  on a key that is not a case label of its switch, and changes nothing.
\<close>

theorem unexpected_enum_values:
  "on_rpc_changed_idle E s (TR_RPC_unknown v) torrent_id = Inl Assert_not_reached
   \<and> on_core_error E s (ERR_unknown w) msg = Inl Assert_not_reached
   \<and> (key \<notin> set handled_prefs \<longrightarrow> on_prefs_changed E s key = Inr s)"
  by (simp add: on_rpc_changed_idle_def on_core_error_def on_prefs_changed_unhandled)

theorem unexpected_enum_values_witness:
  "on_rpc_changed_idle example_env example_impl (TR_RPC_unknown 10) 1 = Inl Assert_not_reached
   \<and> on_core_error example_env example_impl (ERR_unknown 3) ''a.torrent'' = Inl Assert_not_reached
   \<and> ''peer-limit-global'' \<notin> set handled_prefs
   \<and> on_prefs_changed example_env example_impl ''peer-limit-global'' = Inr example_impl"
  using unexpected_enum_values
    [where E = example_env and s = example_impl and v = 10 and torrent_id = 1 and w = 3
       and msg = "''a.torrent''" and key = "''peer-limit-global''"]
  by (simp add: handled_prefs_def)

text \<open>
  The claim fails for \<^verbatim>\<open>on_prefs_changed\<close>: \<^verbatim>\<open>TR_KEY_main_window_x\<close> is not a case label,
  and the call returns normally instead of aborting.
\<close>

theorem on_prefs_changed_unexpected_key_counterexample:
  "''main-window-x'' \<notin> set handled_prefs
   \<and> on_prefs_changed example_env example_impl ''main-window-x'' = Inr example_impl
   \<and> on_prefs_changed example_env example_impl ''main-window-x'' \<noteq> Inl Assert_not_reached"
  by (simp add: handled_prefs_def on_prefs_changed_def)

subsection \<open>The magnet link handler (C7)\<close>

text \<open>
  C7. \<^verbatim>\<open>ensure_magnet_handler_exists\<close> leaves everything as it is, whatever the Gio calls
  would do, when a handler of the magnet scheme exists, and registers otherwise. When a Gio
  call of \<^verbatim>\<open>register_magnet_link_handler\<close> throws a \<^verbatim>\<open>Gio::Error\<close>, the function returns
  normally and the only change is one more warning in the log, made of the content type,
  the error's text and its code. An exception of another type is not caught: it leaves the
  function. So the function returns normally exactly when its Gio calls throw nothing but
  \<^verbatim>\<open>Gio::Error\<close>.
\<close>

theorem register_magnet_link_handler_best_effort:
  "(has_magnet_link_handler d \<longrightarrow> ensure_magnet_handler_exists g d = Inr d)
   \<and> (\<not> has_magnet_link_handler d \<longrightarrow>
        ensure_magnet_handler_exists g d = register_magnet_link_handler g d)
   \<and> (register_try_block g ''x-scheme-handler/magnet'' d = Inl (Gio_Error e) \<longrightarrow>
        register_magnet_link_handler g d =
          Inr (d\<lparr>warnings := warnings d @
                 [''Couldn't register Transmission as a x-scheme-handler/magnet handler: ''
                  @ gio_what e @ '' ('' @ show_int (gio_code e) @ '')'']\<rparr>))
   \<and> (register_try_block g ''x-scheme-handler/magnet'' d = Inl (Other_exception x) \<longrightarrow>
        register_magnet_link_handler g d = Inl (Other_exception x))
   \<and> (register_try_block g ''x-scheme-handler/magnet'' d = Inr d' \<longrightarrow>
        register_magnet_link_handler g d = Inr d' \<and> warnings d' = warnings d)
   \<and> ((\<exists>d'. register_magnet_link_handler g d = Inr d')
        = (\<forall>x. register_try_block g ''x-scheme-handler/magnet'' d \<noteq> Inl (Other_exception x)))
   \<and> (register_try_block g ''x-scheme-handler/magnet'' d = Inl ex) =
       (create_from_commandline g ''transmission-gtk'' = Inl ex
        \<or> (\<exists>u. create_from_commandline g ''transmission-gtk'' = Inr u
                \<and> set_as_default_for_type g u ''x-scheme-handler/magnet'' = Inl ex))"
proof (intro conjI impI)
  show "(\<exists>d'. register_magnet_link_handler g d = Inr d')
        = (\<forall>x. register_try_block g ''x-scheme-handler/magnet'' d \<noteq> Inl (Other_exception x))"
  proof (cases "register_try_block g ''x-scheme-handler/magnet'' d")
    case (Inl ex)
    then show ?thesis
      by (cases ex) (simp_all add: register_magnet_link_handler_def Let_def)
  next
    case (Inr d')
    then show ?thesis by (simp add: register_magnet_link_handler_def Let_def)
  qed
next
  assume "register_try_block g ''x-scheme-handler/magnet'' d = Inr d'"
  then show "warnings d' = warnings d"
    by (auto simp: register_try_block_def split: sum.splits)
next
  show "(register_try_block g ''x-scheme-handler/magnet'' d = Inl ex) =
       (create_from_commandline g ''transmission-gtk'' = Inl ex
        \<or> (\<exists>u. create_from_commandline g ''transmission-gtk'' = Inr u
                \<and> set_as_default_for_type g u ''x-scheme-handler/magnet'' = Inl ex))"
    by (simp add: register_try_block_def split: sum.splits)
qed (simp_all add: ensure_magnet_handler_exists_def register_magnet_link_handler_def Let_def)

theorem register_magnet_link_handler_best_effort_witness:
  "\<not> has_magnet_link_handler \<lparr>default_for_type = Map.empty, warnings = []\<rparr>
   \<and> register_try_block
        \<lparr>create_from_commandline = (\<lambda>cmd. Inr cmd),
         set_as_default_for_type =
           (\<lambda>app t. Inl (Gio_Error \<lparr>gio_what = ''Permission denied'', gio_code = 14\<rparr>))\<rparr>
        ''x-scheme-handler/magnet'' \<lparr>default_for_type = Map.empty, warnings = []\<rparr>
       = Inl (Gio_Error \<lparr>gio_what = ''Permission denied'', gio_code = 14\<rparr>)
   \<and> ensure_magnet_handler_exists
        \<lparr>create_from_commandline = (\<lambda>cmd. Inr cmd),
         set_as_default_for_type =
           (\<lambda>app t. Inl (Gio_Error \<lparr>gio_what = ''Permission denied'', gio_code = 14\<rparr>))\<rparr>
        \<lparr>default_for_type = Map.empty, warnings = []\<rparr>
       = Inr \<lparr>default_for_type = Map.empty,
              warnings = [''Couldn't register Transmission as a x-scheme-handler/magnet handler: Permission denied (14)'']\<rparr>
   \<and> has_magnet_link_handler \<lparr>default_for_type = [''x-scheme-handler/magnet'' \<mapsto> ''ktorrent''], warnings = []\<rparr>
   \<and> ensure_magnet_handler_exists
        \<lparr>create_from_commandline = (\<lambda>cmd. Inr cmd),
         set_as_default_for_type =
           (\<lambda>app t. Inl (Gio_Error \<lparr>gio_what = ''Permission denied'', gio_code = 14\<rparr>))\<rparr>
        \<lparr>default_for_type = [''x-scheme-handler/magnet'' \<mapsto> ''ktorrent''], warnings = []\<rparr>
       = Inr \<lparr>default_for_type = [''x-scheme-handler/magnet'' \<mapsto> ''ktorrent''], warnings = []\<rparr>
   \<and> register_try_block
        \<lparr>create_from_commandline = (\<lambda>cmd. Inr cmd), set_as_default_for_type = (\<lambda>app t. Inr ())\<rparr>
        ''x-scheme-handler/magnet'' \<lparr>default_for_type = Map.empty, warnings = []\<rparr>
       = Inr \<lparr>default_for_type = [''x-scheme-handler/magnet'' \<mapsto> ''transmission-gtk''], warnings = []\<rparr>
   \<and> register_magnet_link_handler
        \<lparr>create_from_commandline = (\<lambda>cmd. Inr cmd), set_as_default_for_type = (\<lambda>app t. Inr ())\<rparr>
        \<lparr>default_for_type = Map.empty, warnings = []\<rparr>
       = Inr \<lparr>default_for_type = [''x-scheme-handler/magnet'' \<mapsto> ''transmission-gtk''], warnings = []\<rparr>"
proof -
  let ?g = "\<lparr>create_from_commandline = (\<lambda>cmd. Inr cmd),
         set_as_default_for_type =
           (\<lambda>app t. Inl (Gio_Error \<lparr>gio_what = ''Permission denied'', gio_code = 14\<rparr>))\<rparr>"
  let ?g3 = "\<lparr>create_from_commandline = (\<lambda>cmd. Inr cmd), set_as_default_for_type = (\<lambda>app t. Inr ())\<rparr>"
  let ?d = "\<lparr>default_for_type = Map.empty, warnings = []\<rparr>"
  let ?d2 = "\<lparr>default_for_type = [''x-scheme-handler/magnet'' \<mapsto> ''ktorrent''], warnings = []\<rparr>"
  let ?d3 = "\<lparr>default_for_type = [''x-scheme-handler/magnet'' \<mapsto> ''transmission-gtk''], warnings = []\<rparr>"
  have n14: "show_int 14 = ''14''"
    by (simp add: show_int_def show_nat.simps [of 14] show_nat_digit digit_char_def)
  have h1: "\<not> has_magnet_link_handler ?d" by (simp add: has_magnet_link_handler_def)
  have h2: "has_magnet_link_handler ?d2" by (simp add: has_magnet_link_handler_def)
  have t: "register_try_block ?g ''x-scheme-handler/magnet'' ?d
             = Inl (Gio_Error \<lparr>gio_what = ''Permission denied'', gio_code = 14\<rparr>)"
    by (simp add: register_try_block_def)
  have t3: "register_try_block ?g3 ''x-scheme-handler/magnet'' ?d = Inr ?d3"
    by (simp add: register_try_block_def)
  have a: "ensure_magnet_handler_exists ?g ?d
       = Inr \<lparr>default_for_type = Map.empty,
              warnings = [''Couldn't register Transmission as a x-scheme-handler/magnet handler: Permission denied (14)'']\<rparr>"
    using register_magnet_link_handler_best_effort
            [where g = ?g and d = ?d and e = "\<lparr>gio_what = ''Permission denied'', gio_code = 14\<rparr>"
               and x = "[]" and d' = ?d and ex = "Other_exception []"]
    by (simp add: h1 t n14)
  have b: "ensure_magnet_handler_exists ?g ?d2 = Inr ?d2"
    using register_magnet_link_handler_best_effort
            [where g = ?g and d = ?d2 and e = "\<lparr>gio_what = [], gio_code = 0\<rparr>"
               and x = "[]" and d' = ?d and ex = "Other_exception []"]
    by (simp add: h2)
  have c: "register_magnet_link_handler ?g3 ?d = Inr ?d3"
    using register_magnet_link_handler_best_effort
            [where g = ?g3 and d = ?d and e = "\<lparr>gio_what = [], gio_code = 0\<rparr>"
               and x = "[]" and d' = ?d3 and ex = "Other_exception []"]
    by (simp add: t3)
  from h1 t a h2 b t3 c show ?thesis by simp
qed

text \<open>
  An exception that is not a \<^verbatim>\<open>Gio::Error\<close>, here a \<^verbatim>\<open>Glib::FileError\<close> thrown while the
  association is written, is not caught: it leaves \<^verbatim>\<open>register_magnet_link_handler\<close> and
  \<^verbatim>\<open>ensure_magnet_handler_exists\<close>, and no warning is logged.
\<close>

theorem register_magnet_link_handler_uncaught_counterexample:
  "\<not> has_magnet_link_handler \<lparr>default_for_type = Map.empty, warnings = []\<rparr>
   \<and> register_magnet_link_handler
        \<lparr>create_from_commandline = (\<lambda>cmd. Inr cmd),
         set_as_default_for_type = (\<lambda>app t. Inl (Other_exception ''Glib::FileError''))\<rparr>
        \<lparr>default_for_type = Map.empty, warnings = []\<rparr>
       = Inl (Other_exception ''Glib::FileError'')
   \<and> ensure_magnet_handler_exists
        \<lparr>create_from_commandline = (\<lambda>cmd. Inr cmd),
         set_as_default_for_type = (\<lambda>app t. Inl (Other_exception ''Glib::FileError''))\<rparr>
        \<lparr>default_for_type = Map.empty, warnings = []\<rparr>
       = Inl (Other_exception ''Glib::FileError'')"
  by (simp add: has_magnet_link_handler_def ensure_magnet_handler_exists_def
        register_magnet_link_handler_def register_try_block_def)

subsection \<open>Drag and drop (C8)\<close>

lemma emit_emit [simp]: "emit es (emit fs s) = emit (fs @ es) s"
  by (simp add: emit_def)

lemma dropWhile_all_iff: "(\<forall>x\<in>set (dropWhile P xs). P x) = (\<forall>x\<in>set xs. P x)"
proof
  assume a: "\<forall>x\<in>set (dropWhile P xs). P x"
  have "dropWhile P xs = []"
  proof (rule ccontr)
    assume n: "dropWhile P xs \<noteq> []"
    then have "\<not> P (hd (dropWhile P xs))" by (rule hd_dropWhile)
    moreover have "hd (dropWhile P xs) \<in> set (dropWhile P xs)" using n by (rule hd_in_set)
    ultimately show False using a by blast
  qed
  then show "\<forall>x\<in>set xs. P x" by (simp only: dropWhile_eq_Nil_conv)
next
  assume "\<forall>x\<in>set xs. P x"
  then show "\<forall>x\<in>set (dropWhile P xs). P x" using set_dropWhileD by fast
qed

lemma gtr_str_strip_Nil_iff: "(gtr_str_strip text = []) = (\<forall>c\<in>set text. is_space c)"
proof -
  have "(gtr_str_strip text = []) = (dropWhile is_space (rev (dropWhile is_space text)) = [])"
    by (simp add: gtr_str_strip_def)
  also have "\<dots> = (\<forall>c\<in>set (dropWhile is_space text). is_space c)"
    by (simp only: dropWhile_eq_Nil_conv set_rev)
  also have "\<dots> = (\<forall>c\<in>set text. is_space c)"
    by (rule dropWhile_all_iff)
  finally show ?thesis .
qed

text \<open>What is stripped is whitespace, and what is left neither starts nor ends with whitespace.\<close>

lemma gtr_str_strip_surrounding:
  "\<exists>pre post. text = pre @ gtr_str_strip text @ post
      \<and> (\<forall>c\<in>set pre. is_space c) \<and> (\<forall>c\<in>set post. is_space c)"
proof -
  let ?a = "takeWhile is_space text" and ?m = "dropWhile is_space text"
  let ?b = "takeWhile is_space (rev ?m)"
  have 2: "rev ?m = ?b @ dropWhile is_space (rev ?m)" by simp
  have "rev (rev ?m) = rev (?b @ dropWhile is_space (rev ?m))" using arg_cong [OF 2, of rev] .
  then have "?m = rev (dropWhile is_space (rev ?m)) @ rev ?b" by (simp only: rev_rev_ident rev_append)
  then have 3: "?m = gtr_str_strip text @ rev ?b" by (simp only: gtr_str_strip_def)
  have e1: "?a @ ?m = text" by (rule takeWhile_dropWhile_id)
  have e2: "?a @ ?m = ?a @ gtr_str_strip text @ rev ?b" using 3 by (rule arg_cong)
  have "text = ?a @ gtr_str_strip text @ rev ?b" by (rule trans [OF e1 [symmetric] e2])
  moreover have "\<forall>c\<in>set ?a. is_space c" by (auto dest: set_takeWhileD)
  moreover have "\<forall>c\<in>set (rev ?b). is_space c" by (auto dest: set_takeWhileD)
  ultimately show ?thesis by (intro exI conjI)
qed

lemma gtr_str_strip_ends:
  "gtr_str_strip text \<noteq> [] \<Longrightarrow>
   \<not> is_space (hd (gtr_str_strip text)) \<and> \<not> is_space (last (gtr_str_strip text))"
proof -
  let ?m = "dropWhile is_space text"
  let ?r = "dropWhile is_space (rev ?m)"
  assume n: "gtr_str_strip text \<noteq> []"
  then have rn: "?r \<noteq> []" by (simp add: gtr_str_strip_def)
  then have l: "\<not> is_space (hd ?r)" by (rule hd_dropWhile)
  have mn: "?m \<noteq> []" 
  proof
    assume e: "?m = []"
    have "?r = dropWhile is_space (rev [])" by (simp only: e)
    then have "?r = []" by (simp only: rev.simps dropWhile.simps)
    with rn show False by (simp only: not_True_eq_False simp_thms)
  qed
  then have h: "\<not> is_space (hd ?m)" by (rule hd_dropWhile)
  have "last (gtr_str_strip text) = hd ?r" using rn by (simp add: gtr_str_strip_def last_rev)
  moreover have "hd (gtr_str_strip text) = hd ?m"
  proof -
    have "hd ?m \<in> set (rev ?m)" using mn by simp
    then have "last ?r = last (rev ?m)"
      using h by (rule dropWhile_last)
    then show ?thesis using rn mn by (simp add: gtr_str_strip_def hd_rev last_rev)
  qed
  ultimately show ?thesis using l h by simp
qed

text \<open>
  C8. A drop that carries URIs is opened through \<^verbatim>\<open>open_files\<close>: one file per URI, the
  start flag from the start-added-torrents preference (and not when started paused), the
  prompt flag from the show-options-window preference. A text drop is stripped and goes to
  \<^verbatim>\<open>add_from_url\<close> exactly when something is left; a text of whitespace only, or an empty
  one, adds nothing. This holds for the GTK 3 handler and for the GTK 4 one.
\<close>

theorem on_drag_data_received_payload:
  "(get_uris selection \<noteq> [] \<longrightarrow>
      on_drag_data_received E s selection =
        emit [Core_add_files (map File_create_for_uri (get_uris selection))
                (gtr_pref_flag_get E (pref_all s) ''start-added-torrents'' \<and> \<not> start_paused s)
                (gtr_pref_flag_get E (pref_all s) ''show-options-window'') True,
              Drag_finish True False] s)
   \<and> (get_uris selection = [] \<longrightarrow>
      on_drag_data_received E s selection =
        (if gtr_str_strip (get_text selection) \<noteq> []
         then emit [Core_add_from_url (gtr_str_strip (get_text selection)), Drag_finish True False] s
         else emit [Drag_finish True False] s))
   \<and> on_drag_data_received_gtk4 E s (File_list_value files) =
        (emit [Core_add_files files
                (gtr_pref_flag_get E (pref_all s) ''start-added-torrents'' \<and> \<not> start_paused s)
                (gtr_pref_flag_get E (pref_all s) ''show-options-window'') True] s, True)
   \<and> on_drag_data_received_gtk4 E s (String_value str) =
        (if gtr_str_strip str \<noteq> []
         then (emit [Core_add_from_url (gtr_str_strip str)] s, core_add_from_url E (gtr_str_strip str))
         else (s, False))
   \<and> ((gtr_str_strip dropped = []) = (\<forall>c\<in>set dropped. is_space c))"
proof (intro conjI impI)
  show "(gtr_str_strip dropped = []) = (\<forall>c\<in>set dropped. is_space c)"
    by (rule gtr_str_strip_Nil_iff)
qed (simp_all add: on_drag_data_received_def on_drag_data_received_gtk4_def open_files_def Let_def)

theorem on_drag_data_received_payload_witness:
  "get_uris \<lparr>get_uris = [''file:///tmp/a.torrent''], get_text = []\<rparr> \<noteq> []
   \<and> on_drag_data_received example_env example_impl
        \<lparr>get_uris = [''file:///tmp/a.torrent''], get_text = []\<rparr>
       = emit [Core_add_files [File_create_for_uri ''file:///tmp/a.torrent''] True False True,
               Drag_finish True False] example_impl
   \<and> gtr_str_strip '' magnet:?xt=urn:btih:c12f '' = ''magnet:?xt=urn:btih:c12f''
   \<and> on_drag_data_received_gtk4 example_env example_impl (String_value '' magnet:?xt=urn:btih:c12f '')
       = (emit [Core_add_from_url ''magnet:?xt=urn:btih:c12f''] example_impl, True)
   \<and> gtr_str_strip [CHR '' '', CHR 0x09, CHR 0x0A] = []
   \<and> on_drag_data_received_gtk4 example_env example_impl (String_value [CHR '' '', CHR 0x09, CHR 0x0A])
       = (example_impl, False)"
proof -
  have st: "gtr_str_strip '' magnet:?xt=urn:btih:c12f '' = ''magnet:?xt=urn:btih:c12f''"
    by (simp add: gtr_str_strip_def is_space_def)
  have sp: "\<forall>c\<in>set [CHR '' '', CHR 0x09, CHR 0x0A]. is_space c"
    by (simp add: is_space_def)
  have fl: "gtr_pref_flag_get example_env (pref_all example_impl) ''start-added-torrents''"
    "\<not> gtr_pref_flag_get example_env (pref_all example_impl) ''show-options-window''"
    "\<not> start_paused example_impl" "core_add_from_url example_env ''magnet:?xt=urn:btih:c12f''"
    by (simp_all add: example_env_def example_impl_def)
  show ?thesis
    using on_drag_data_received_payload
            [where E = example_env and s = example_impl
               and selection = "\<lparr>get_uris = [''file:///tmp/a.torrent''], get_text = []\<rparr>"
               and str = "'' magnet:?xt=urn:btih:c12f ''"
               and dropped = "[CHR '' '', CHR 0x09, CHR 0x0A]"]
          on_drag_data_received_payload
            [where E = example_env and s = example_impl
               and str = "[CHR '' '', CHR 0x09, CHR 0x0A]"
               and dropped = "[CHR '' '', CHR 0x09, CHR 0x0A]"]
    by (simp add: st sp fl)
qed

subsection \<open>Errors of adding torrents (C1)\<close>

lemma foldl_listing:
  "foldl (\<lambda>acc f. acc @ g f) acc0 files = acc0 @ concat (map g files)"
  by (induction files arbitrary: acc0) simp_all

lemma show_torrent_errors_eq:
  "show_torrent_errors E primary files s =
     (emit [Message_dialog primary
              (concat (map (\<lambda>f. (if length files > 1 then unicode_bullet E else []) @ '' '' @ f @ [CHR 0x0A])
                           files))] s, [])"
  by (simp add: show_torrent_errors_def Let_def foldl_listing)

lemma flush_torrent_errors_eq:
  "flush_torrent_errors E s =
     (emit ((if error_list s = [] then []
             else [Message_dialog
                     (ngettext ''Couldn't add corrupt torrent'' ''Couldn't add corrupt torrents''
                        (length (error_list s)))
                     (concat (map (\<lambda>f. (if length (error_list s) > 1 then unicode_bullet E else [])
                                          @ '' '' @ f @ [CHR 0x0A]) (error_list s)))])
            @ (if duplicates_list s = [] then []
               else [Message_dialog
                       (ngettext ''Couldn't add duplicate torrent'' ''Couldn't add duplicate torrents''
                          (length (duplicates_list s)))
                       (concat (map (\<lambda>f. (if length (duplicates_list s) > 1 then unicode_bullet E else [])
                                            @ '' '' @ f @ [CHR 0x0A]) (duplicates_list s)))])) s)
       \<lparr>error_list := [], duplicates_list := []\<rparr>"
  by (simp add: flush_torrent_errors_def show_torrent_errors_eq emit_def Let_def)

lemma on_core_errors_pending:
  "\<forall>ev\<in>set evs. fst ev = ERR_ADD_TORRENT_ERR \<or> fst ev = ERR_ADD_TORRENT_DUP \<Longrightarrow>
   on_core_errors E s evs =
     Inr (s\<lparr>error_list := error_list s
                @ map (\<lambda>ev. path_get_basename E (snd ev)) (filter (\<lambda>ev. fst ev = ERR_ADD_TORRENT_ERR) evs),
            duplicates_list := duplicates_list s
                @ map snd (filter (\<lambda>ev. fst ev = ERR_ADD_TORRENT_DUP) evs)\<rparr>)"
proof (induction evs arbitrary: s)
  case Nil
  show ?case by simp
next
  case (Cons ev evs)
  obtain code msg where ev: "ev = (code, msg)" by (cases ev)
  from Cons.prems have rest: "\<forall>ev\<in>set evs. fst ev = ERR_ADD_TORRENT_ERR \<or> fst ev = ERR_ADD_TORRENT_DUP"
    and code: "code = ERR_ADD_TORRENT_ERR \<or> code = ERR_ADD_TORRENT_DUP"
    by (simp_all add: ev)
  from code show ?case
  proof
    assume "code = ERR_ADD_TORRENT_ERR"
    then show ?thesis
      by (simp add: ev on_core_error_def then_do_def Cons.IH [OF rest])
  next
    assume "code = ERR_ADD_TORRENT_DUP"
    then show ?thesis
      by (simp add: ev on_core_error_def then_do_def Cons.IH [OF rest])
  qed
qed

text \<open>
  C1, as the code has it. While adds are pending, a corrupt-torrent error appends the
  basename of its message to \<^verbatim>\<open>error_list_\<close>, a duplicate-torrent error appends its message
  to \<^verbatim>\<open>duplicates_list_\<close>, and nothing else changes: no dialog is shown. The
  no-more-torrents event shows one dialog for the corrupt torrents when there are any, then
  one dialog for the duplicates when there are any, each listing the file names of its list
  one per line, and leaves both lists empty.
\<close>

theorem on_core_error_batches:
  "((\<forall>ev\<in>set evs. fst ev = ERR_ADD_TORRENT_ERR \<or> fst ev = ERR_ADD_TORRENT_DUP) \<longrightarrow>
      on_core_errors E s evs =
        Inr (s\<lparr>error_list := error_list s
                   @ map (\<lambda>ev. path_get_basename E (snd ev))
                         (filter (\<lambda>ev. fst ev = ERR_ADD_TORRENT_ERR) evs),
               duplicates_list := duplicates_list s
                   @ map snd (filter (\<lambda>ev. fst ev = ERR_ADD_TORRENT_DUP) evs)\<rparr>))
   \<and> on_core_error E s ERR_ADD_TORRENT_ERR msg
       = Inr (s\<lparr>error_list := error_list s @ [path_get_basename E msg]\<rparr>)
   \<and> on_core_error E s ERR_ADD_TORRENT_DUP msg
       = Inr (s\<lparr>duplicates_list := duplicates_list s @ [msg]\<rparr>)
   \<and> on_core_error E s ERR_NO_MORE_TORRENTS msg =
       Inr ((emit ((if error_list s = [] then []
                    else [Message_dialog
                            (ngettext ''Couldn't add corrupt torrent'' ''Couldn't add corrupt torrents''
                               (length (error_list s)))
                            (concat (map (\<lambda>f. (if length (error_list s) > 1 then unicode_bullet E else [])
                                                 @ '' '' @ f @ [CHR 0x0A]) (error_list s)))])
                   @ (if duplicates_list s = [] then []
                      else [Message_dialog
                              (ngettext ''Couldn't add duplicate torrent'' ''Couldn't add duplicate torrents''
                                 (length (duplicates_list s)))
                              (concat (map (\<lambda>f. (if length (duplicates_list s) > 1 then unicode_bullet E else [])
                                                   @ '' '' @ f @ [CHR 0x0A]) (duplicates_list s)))])) s)
              \<lparr>error_list := [], duplicates_list := []\<rparr>)"
proof (intro conjI impI)
  assume "\<forall>ev\<in>set evs. fst ev = ERR_ADD_TORRENT_ERR \<or> fst ev = ERR_ADD_TORRENT_DUP"
  then show "on_core_errors E s evs =
        Inr (s\<lparr>error_list := error_list s
                   @ map (\<lambda>ev. path_get_basename E (snd ev))
                         (filter (\<lambda>ev. fst ev = ERR_ADD_TORRENT_ERR) evs),
               duplicates_list := duplicates_list s
                   @ map snd (filter (\<lambda>ev. fst ev = ERR_ADD_TORRENT_DUP) evs)\<rparr>)"
    by (rule on_core_errors_pending)
next
  show "on_core_error E s ERR_ADD_TORRENT_ERR msg
       = Inr (s\<lparr>error_list := error_list s @ [path_get_basename E msg]\<rparr>)"
    by (simp add: on_core_error_def)
next
  show "on_core_error E s ERR_ADD_TORRENT_DUP msg
       = Inr (s\<lparr>duplicates_list := duplicates_list s @ [msg]\<rparr>)"
    by (simp add: on_core_error_def)
next
  show "on_core_error E s ERR_NO_MORE_TORRENTS msg =
       Inr ((emit ((if error_list s = [] then []
                    else [Message_dialog
                            (ngettext ''Couldn't add corrupt torrent'' ''Couldn't add corrupt torrents''
                               (length (error_list s)))
                            (concat (map (\<lambda>f. (if length (error_list s) > 1 then unicode_bullet E else [])
                                                 @ '' '' @ f @ [CHR 0x0A]) (error_list s)))])
                   @ (if duplicates_list s = [] then []
                      else [Message_dialog
                              (ngettext ''Couldn't add duplicate torrent'' ''Couldn't add duplicate torrents''
                                 (length (duplicates_list s)))
                              (concat (map (\<lambda>f. (if length (duplicates_list s) > 1 then unicode_bullet E else [])
                                                   @ '' '' @ f @ [CHR 0x0A]) (duplicates_list s)))])) s)
              \<lparr>error_list := [], duplicates_list := []\<rparr>)"
    by (simp only: on_core_error_def ErrorCode.case flush_torrent_errors_eq)
qed

theorem on_core_error_batches_witness:
  "on_core_errors example_env example_impl
     [(ERR_ADD_TORRENT_ERR, ''/tmp/a.torrent''), (ERR_ADD_TORRENT_ERR, ''/tmp/b.torrent'')]
     = Inr (example_impl\<lparr>error_list := [''a.torrent'', ''b.torrent'']\<rparr>)
   \<and> on_core_error example_env (example_impl\<lparr>error_list := [''a.torrent'', ''b.torrent'']\<rparr>)
        ERR_NO_MORE_TORRENTS []
     = Inr (example_impl\<lparr>trace := [Message_dialog ''Couldn't add corrupt torrents''
                                      (''* a.torrent'' @ [CHR 0x0A] @ ''* b.torrent'' @ [CHR 0x0A])]\<rparr>)"
proof -
  have h: "\<forall>ev\<in>set [(ERR_ADD_TORRENT_ERR, ''/tmp/a.torrent''), (ERR_ADD_TORRENT_ERR, ''/tmp/b.torrent'')].
             fst ev = ERR_ADD_TORRENT_ERR \<or> fst ev = ERR_ADD_TORRENT_DUP"
    by simp
  have b: "path_get_basename example_env ''/tmp/a.torrent'' = ''a.torrent''"
          "path_get_basename example_env ''/tmp/b.torrent'' = ''b.torrent''"
          "unicode_bullet example_env = ''*''"
    by (simp_all add: example_env_def)
  have l: "error_list example_impl = []" "duplicates_list example_impl = []" "trace example_impl = []"
    by (simp_all add: example_impl_def)
  show ?thesis
    using on_core_error_batches
            [where E = example_env and s = example_impl
               and evs = "[(ERR_ADD_TORRENT_ERR, ''/tmp/a.torrent''), (ERR_ADD_TORRENT_ERR, ''/tmp/b.torrent'')]"
               and msg = "[]"]
          on_core_error_batches
            [where E = example_env and s = "example_impl\<lparr>error_list := [''a.torrent'', ''b.torrent'']\<rparr>"
               and msg = "[]" and evs = "[]"]
    by (simp add: h b l ngettext_def emit_def)
qed

text \<open>
  The claim says one dialog. After one corrupt torrent and one duplicate, the
  no-more-torrents event shows two.
\<close>

theorem on_core_error_single_dialog_counterexample:
  "map_sum id (\<lambda>s'. message_dialogs (trace s'))
     (on_core_errors example_env example_impl
        [(ERR_ADD_TORRENT_ERR, ''/tmp/a.torrent''), (ERR_ADD_TORRENT_DUP, ''b.torrent''),
         (ERR_NO_MORE_TORRENTS, [])])
   = Inr [(''Couldn't add corrupt torrent'', '' a.torrent'' @ [CHR 0x0A]),
          (''Couldn't add duplicate torrent'', '' b.torrent'' @ [CHR 0x0A])]"
  by (simp add: on_core_error_def then_do_def flush_torrent_errors_def show_torrent_errors_def
        ngettext_def emit_def Let_def example_env_def example_impl_def)

subsection \<open>Session settings changed (C3)\<close>

lemma collect_changed_keys_eq:
  "collect_changed_keys E oldvals tmp
     = map fst (filter (\<lambda>(key, newval). setting_changed E oldvals key newval) tmp)"
proof -
  have "foldl (\<lambda>changed_keys (key, newval).
              if setting_changed E oldvals key newval then changed_keys @ [key] else changed_keys)
           acc tmp
        = acc @ map fst (filter (\<lambda>(key, newval). setting_changed E oldvals key newval) tmp)" for acc
    by (induction tmp arbitrary: acc) (simp_all split: prod.splits)
  from this [of "[]"] show ?thesis by (simp add: collect_changed_keys_def)
qed

lemma setting_changed_iff:
  "setting_changed E oldvals key newval =
     (tr_variantDictFind oldvals key = None
      \<or> (\<exists>oldval. tr_variantDictFind oldvals key = Some oldval
             \<and> tr_variantToStr_benc E oldval \<noteq> tr_variantToStr_benc E newval))"
  by (simp add: setting_changed_def Let_def split: option.splits)

lemma emit_prefs_changed_result:
  "\<exists>s'. emit_prefs_changed E ks s = Inr s'
        \<and> prefs_changed_emissions (trace s') = prefs_changed_emissions (trace s) @ ks
        \<and> exit_events (trace s') = exit_events (trace s)
        \<and> message_dialogs (trace s') = message_dialogs (trace s)
        \<and> s'\<lparr>icon := False, trace := []\<rparr> = s\<lparr>icon := False, trace := []\<rparr>"
proof (induction ks arbitrary: s)
  case Nil
  show ?case by simp
next
  case (Cons k ks)
  let ?s0 = "emit [Core_prefs_changed_emit k] s"
  obtain s1 where s1: "on_prefs_changed E ?s0 k = Inr s1"
    using on_prefs_changed_returns by blast
  with on_prefs_changed_frame [where E = E and s = ?s0 and key = k]
  have f: "s1\<lparr>icon := False, trace := []\<rparr> = ?s0\<lparr>icon := False, trace := []\<rparr>"
    "exit_events (trace s1) = exit_events (trace ?s0)"
    "message_dialogs (trace s1) = message_dialogs (trace ?s0)"
    "prefs_changed_emissions (trace s1) = prefs_changed_emissions (trace ?s0)"
    by simp_all
  from Cons.IH [of s1] obtain s' where s': "emit_prefs_changed E ks s1 = Inr s'"
    "prefs_changed_emissions (trace s') = prefs_changed_emissions (trace s1) @ ks"
    "exit_events (trace s') = exit_events (trace s1)"
    "message_dialogs (trace s') = message_dialogs (trace s1)"
    "s'\<lparr>icon := False, trace := []\<rparr> = s1\<lparr>icon := False, trace := []\<rparr>"
    by blast
  have "emit_prefs_changed E (k # ks) s = Inr s'"
    by (simp add: then_do_def s1 s')
  moreover have "prefs_changed_emissions (trace s') = prefs_changed_emissions (trace s) @ k # ks"
    by (simp add: s' f)
  moreover have "exit_events (trace s') = exit_events (trace s)"
  proof -
    have "exit_events [Core_prefs_changed_emit k] = []" by (simp add: exit_events_def)
    then show ?thesis by (simp add: s' f)
  qed
  moreover have "message_dialogs (trace s') = message_dialogs (trace s)"
    by (simp add: s' f)
  moreover have "s'\<lparr>icon := False, trace := []\<rparr> = s\<lparr>icon := False, trace := []\<rparr>"
    by (simp add: s'(5) f(1) emit_def)
  ultimately show ?case by blast
qed

lemma dict_set_distinct: "distinct (map fst d) \<Longrightarrow> distinct (map fst (dict_set d key v))"
proof -
  assume d: "distinct (map fst d)"
  have m: "map (fst \<circ> (\<lambda>(k, x). if k = key then (k, v) else (k, x))) d = map fst d"
    by (induction d) (simp_all split: prod.splits)
  show ?thesis
  proof (cases "key \<in> set (map fst d)")
    case True
    then show ?thesis using d by (simp add: dict_set_def m)
  next
    case False
    then show ?thesis using d by (simp add: dict_set_def)
  qed
qed

lemma tr_sessionGetSettings_distinct:
  "distinct (map fst d) \<Longrightarrow> distinct (map fst (tr_sessionGetSettings E d))"
proof -
  have "distinct (map fst d) \<Longrightarrow> distinct (map fst (foldl (\<lambda>acc (k, v). dict_set acc k v) d kvs))" for kvs
    by (induction kvs arbitrary: d) (simp_all add: dict_set_distinct split: prod.splits)
  then show "distinct (map fst d) \<Longrightarrow> distinct (map fst (tr_sessionGetSettings E d))"
    by (simp add: tr_sessionGetSettings_def)
qed

text \<open>
  C3. On \<^verbatim>\<open>TR_RPC_SESSION_CHANGED\<close>, \<^verbatim>\<open>on_rpc_changed_idle\<close> returns normally, and the
  prefs-changed signals it emits are, in the order of the freshly fetched settings
  dictionary, the keys of that dictionary that the old preferences lack or whose old value
  serializes to another string than the new one; every key stands once in the fetched
  dictionary, and the preferences end up updated with the settings.
\<close>

theorem session_changed_emissions:
  "\<exists>s'. on_rpc_changed_idle E s TR_RPC_SESSION_CHANGED torrent_id = Inr s'
      \<and> prefs_changed_emissions (trace s')
          = prefs_changed_emissions (trace s)
            @ map fst (filter (\<lambda>(key, newval).
                                 tr_variantDictFind (pref_all s) key = None
                                 \<or> (\<exists>oldval. tr_variantDictFind (pref_all s) key = Some oldval
                                        \<and> tr_variantToStr_benc E oldval \<noteq> tr_variantToStr_benc E newval))
                              (tr_sessionGetSettings E []))
      \<and> distinct (map fst (tr_sessionGetSettings E []))
      \<and> pref_all s' = tr_sessionGetSettings E (pref_all s)"
proof -
  let ?s1 = "s\<lparr>pref_all := tr_sessionGetSettings E (pref_all s)\<rparr>"
  let ?ks = "collect_changed_keys E (pref_all s) (tr_sessionGetSettings E [])"
  have run: "on_rpc_changed_idle E s TR_RPC_SESSION_CHANGED torrent_id = emit_prefs_changed E ?ks ?s1"
    by (simp add: on_rpc_changed_idle_def Let_def)
  obtain s' where s': "emit_prefs_changed E ?ks ?s1 = Inr s'"
    "prefs_changed_emissions (trace s') = prefs_changed_emissions (trace ?s1) @ ?ks"
    "s'\<lparr>icon := False, trace := []\<rparr> = ?s1\<lparr>icon := False, trace := []\<rparr>"
    using emit_prefs_changed_result [of E ?ks ?s1] by blast
  have "pref_all (s'\<lparr>icon := False, trace := []\<rparr>) = pref_all (?s1\<lparr>icon := False, trace := []\<rparr>)"
    by (simp only: s'(3))
  then have p: "pref_all s' = tr_sessionGetSettings E (pref_all s)" by simp
  have ks: "?ks = map fst (filter (\<lambda>(key, newval).
                                 tr_variantDictFind (pref_all s) key = None
                                 \<or> (\<exists>oldval. tr_variantDictFind (pref_all s) key = Some oldval
                                        \<and> tr_variantToStr_benc E oldval \<noteq> tr_variantToStr_benc E newval))
                              (tr_sessionGetSettings E []))"
    by (simp only: collect_changed_keys_eq setting_changed_iff)
  have d: "distinct (map fst (tr_sessionGetSettings E []))"
    by (rule tr_sessionGetSettings_distinct) simp
  have e: "prefs_changed_emissions (trace s') = prefs_changed_emissions (trace s) @ ?ks"
    using s'(2) by simp
  show ?thesis
    using run s'(1) e p d unfolding ks by (intro exI [of _ s'] conjI) simp_all
qed

theorem session_changed_emissions_witness:
  "map_sum id (\<lambda>s'. prefs_changed_emissions (trace s'))
     (on_rpc_changed_idle
        (example_env\<lparr>session_settings :=
           [(''peer-port'', V_int 7), (''dht-enabled'', V_bool True), (''download-dir'', V_str ''/tmp'')]\<rparr>)
        (example_impl\<lparr>pref_all :=
           [(''peer-port'', V_int 7), (''dht-enabled'', V_bool False), (''main-window-x'', V_int 3)]\<rparr>)
        TR_RPC_SESSION_CHANGED 0)
   = Inr [''dht-enabled'', ''download-dir'']"
proof -
  let ?E = "example_env\<lparr>session_settings :=
           [(''peer-port'', V_int 7), (''dht-enabled'', V_bool True), (''download-dir'', V_str ''/tmp'')]\<rparr>"
  let ?s = "example_impl\<lparr>pref_all :=
           [(''peer-port'', V_int 7), (''dht-enabled'', V_bool False), (''main-window-x'', V_int 3)]\<rparr>"
  have g: "tr_sessionGetSettings ?E []
           = [(''peer-port'', V_int 7), (''dht-enabled'', V_bool True), (''download-dir'', V_str ''/tmp'')]"
    by (simp add: tr_sessionGetSettings_def dict_set_def example_env_def)
  have b: "tr_variantToStr_benc example_env (V_bool False) \<noteq> tr_variantToStr_benc example_env (V_bool True)"
    by (simp add: example_env_def)
  have t: "trace ?s = []" "pref_all ?s = [(''peer-port'', V_int 7), (''dht-enabled'', V_bool False), (''main-window-x'', V_int 3)]"
    by (simp_all add: example_impl_def)
  from session_changed_emissions [of ?E ?s 0]
  obtain s' where s': "on_rpc_changed_idle ?E ?s TR_RPC_SESSION_CHANGED 0 = Inr s'"
    "prefs_changed_emissions (trace s')
          = prefs_changed_emissions (trace ?s)
            @ map fst (filter (\<lambda>(key, newval).
                                 tr_variantDictFind (pref_all ?s) key = None
                                 \<or> (\<exists>oldval. tr_variantDictFind (pref_all ?s) key = Some oldval
                                        \<and> tr_variantToStr_benc ?E oldval \<noteq> tr_variantToStr_benc ?E newval))
                              (tr_sessionGetSettings ?E []))"
    by blast
  have "prefs_changed_emissions (trace s') = [''dht-enabled'', ''download-dir'']"
    unfolding s'(2) g t by (simp add: tr_variantDictFind_def b)
  with s'(1) show ?thesis by simp
qed

subsection \<open>What the handlers leave untouched\<close>

lemma exit_view_emit:
  "exit_events es = [] \<Longrightarrow> exit_view (emit es s) = exit_view s"
  by (simp add: exit_view_def emit_def)

lemma exit_view_trace_irrelevant [simp]:
  "exit_view (s\<lparr>trace := trace s @ es\<rparr>) = exit_view (emit es s)"
  by (simp add: emit_def)

lemma exit_events_simps [simp]:
  "exit_events [] = []"
  "e \<noteq> App_release \<Longrightarrow> e \<noteq> Tr_sessionClose_returned \<Longrightarrow> exit_events (e # es) = exit_events es"
  "exit_events (App_release # es) = App_release # exit_events es"
  "exit_events (Tr_sessionClose_returned # es) = Tr_sessionClose_returned # exit_events es"
  by (simp_all add: exit_events_def)

lemma exit_view_disconnect_refresh_actions_tag [simp]:
  "exit_view (disconnect_refresh_actions_tag s) = exit_view s"
  by (simp add: exit_view_def disconnect_refresh_actions_tag_def)

lemma exit_view_refresh_actions [simp]: "exit_view (refresh_actions s) = exit_view s"
  by (simp add: refresh_actions_def Let_def exit_view_emit)

lemma exit_view_refresh_actions_soon [simp]: "exit_view (refresh_actions_soon s) = exit_view s"
  by (simp add: refresh_actions_soon_def exit_view_def)

lemma exit_view_show_details [simp]:
  "exit_view (show_details_dialog_for_selected_torrents E s) = exit_view s"
  by (simp add: show_details_dialog_for_selected_torrents_def Let_def exit_view_def emit_def
           split: option.splits)

lemma exit_view_open_files [simp]: "exit_view (open_files E s files) = exit_view s"
  by (simp add: open_files_def Let_def exit_view_emit)

lemma exit_view_on_drag_data_received [simp]:
  "exit_view (on_drag_data_received E s selection) = exit_view s"
  by (simp add: on_drag_data_received_def Let_def exit_view_emit)

lemma exit_view_placeWindowFromPrefs [simp]: "exit_view (placeWindowFromPrefs E s) = exit_view s"
  by (simp add: placeWindowFromPrefs_def exit_view_emit)

lemma exit_view_presentMainWindow [simp]: "exit_view (presentMainWindow E s) = exit_view s"
  by (simp add: presentMainWindow_def Let_def exit_view_def emit_def placeWindowFromPrefs_def)

lemma exit_view_hideMainWindow [simp]: "exit_view (hideMainWindow s) = exit_view s"
  by (simp add: hideMainWindow_def exit_view_def emit_def)

lemma exit_view_toggleMainWindow [simp]: "exit_view (toggleMainWindow E s) = exit_view s"
  by (simp add: toggleMainWindow_def)

lemma exit_view_flush_torrent_errors [simp]: "exit_view (flush_torrent_errors E s) = exit_view s"
  by (simp add: flush_torrent_errors_eq exit_view_def emit_def)

lemma exit_view_on_core_error:
  "on_core_error E s code msg = Inr s' \<Longrightarrow> exit_view s' = exit_view s"
proof (cases code)
  case ERR_ADD_TORRENT_ERR
  assume "on_core_error E s code msg = Inr s'"
  with ERR_ADD_TORRENT_ERR show ?thesis by (auto simp: on_core_error_def exit_view_def)
next
  case ERR_ADD_TORRENT_DUP
  assume "on_core_error E s code msg = Inr s'"
  with ERR_ADD_TORRENT_DUP show ?thesis by (auto simp: on_core_error_def exit_view_def)
next
  case ERR_NO_MORE_TORRENTS
  assume "on_core_error E s code msg = Inr s'"
  with ERR_NO_MORE_TORRENTS have "s' = flush_torrent_errors E s" by (simp add: on_core_error_def)
  then show ?thesis by simp
next
  case (ERR_unknown v)
  assume "on_core_error E s code msg = Inr s'"
  with ERR_unknown show ?thesis by (simp add: on_core_error_def)
qed

lemma exit_view_on_main_window_focus_in [simp]: "exit_view (on_main_window_focus_in s) = exit_view s"
  by (simp add: on_main_window_focus_in_def exit_view_emit)

lemma exit_view_on_add_torrent [simp]: "exit_view (on_add_torrent s) = exit_view s"
  by (simp add: on_add_torrent_def Let_def exit_view_emit)

lemma exit_view_update_model_once [simp]: "exit_view (update_model_once s) = exit_view s"
proof -
  have a: "exit_view (s'\<lparr>update_model_soon_tag := False,
            idle_queue := removeAll Idle_update_model_once (idle_queue s')\<rparr>) = exit_view s'" for s'
    by (simp add: exit_view_def)
  have b: "exit_view (if c then emit [e] s' else s') = exit_view s'"
    if "e \<noteq> App_release" "e \<noteq> Tr_sessionClose_returned" for c e s'
    using that by (simp add: exit_view_emit)
  show ?thesis
    by (simp add: update_model_once_def Let_def a b emit_def [symmetric] exit_view_emit
          del: exit_view_trace_irrelevant)
qed

lemma exit_view_update_model_soon [simp]: "exit_view (update_model_soon s) = exit_view s"
  by (simp add: update_model_soon_def exit_view_def)

lemma exit_view_update_model_loop [simp]: "exit_view (update_model_loop s) = exit_view s"
  by (simp add: update_model_loop_def Let_def exit_view_def [of "s\<lparr>timer := False\<rparr>"] exit_view_def [of s])

lemma exit_view_call_rpc [simp]: "exit_view (fst (call_rpc_for_selected_torrents s m)) = exit_view s"
  by (simp add: call_rpc_eq exit_view_emit)

lemma exit_view_remove_selected [simp]: "exit_view (remove_selected s b) = exit_view s"
  by (simp add: remove_selected_def Let_def exit_view_emit)

lemma exit_view_start_all [simp]: "exit_view (start_all_torrents s) = exit_view s"
  by (simp add: start_all_torrents_def exit_view_emit)

lemma exit_view_pause_all [simp]: "exit_view (pause_all_torrents s) = exit_view s"
  by (simp add: pause_all_torrents_def exit_view_emit)

lemma exit_view_copy_magnet [simp]: "exit_view (copy_magnet_link_to_clipboard s tor) = exit_view s"
  by (simp add: copy_magnet_link_to_clipboard_def exit_view_emit)

lemma exit_view_open_folders [simp]:
  "exit_view (foldl (\<lambda>st row. emit [Core_open_folder (col_torrent_id row)] st) s rows) = exit_view s"
  by (induction rows arbitrary: s) (simp_all add: exit_view_emit)

lemma exit_view_on_prefs_changed:
  "on_prefs_changed E s key = Inr s' \<Longrightarrow> exit_view s' = exit_view s"
proof -
  assume r: "on_prefs_changed E s key = Inr s'"
  with on_prefs_changed_frame [where E = E and s = s and key = key]
  have f: "s'\<lparr>icon := False, trace := []\<rparr> = s\<lparr>icon := False, trace := []\<rparr>"
    and e: "exit_events (trace s') = exit_events (trace s)"
    by simp_all
  have "exit_view (s'\<lparr>icon := False, trace := []\<rparr>) = exit_view (s\<lparr>icon := False, trace := []\<rparr>)"
    by (simp only: f)
  then show ?thesis using e by (simp add: exit_view_def)
qed

lemma exit_view_emit_prefs_changed:
  "emit_prefs_changed E ks s = Inr s' \<Longrightarrow> exit_view s' = exit_view s"
proof -
  assume r: "emit_prefs_changed E ks s = Inr s'"
  from emit_prefs_changed_result [of E ks s] r
  have f: "s'\<lparr>icon := False, trace := []\<rparr> = s\<lparr>icon := False, trace := []\<rparr>"
    and e: "exit_events (trace s') = exit_events (trace s)"
    by auto
  have "exit_view (s'\<lparr>icon := False, trace := []\<rparr>) = exit_view (s\<lparr>icon := False, trace := []\<rparr>)"
    by (simp only: f)
  then show ?thesis using e by (simp add: exit_view_def)
qed

lemma on_app_exit_closing: "is_closing s \<Longrightarrow> on_app_exit E s = s"
  by (simp add: on_app_exit_def)

lemma exit_view_on_app_exit:
  "exit_view (on_app_exit E s) = (if is_closing s then exit_view s else start_exit (exit_view s))"
  by (simp add: on_app_exit_def Let_def exit_view_def start_exit_def emit_def
        placeWindowFromPrefs_def disconnect_refresh_actions_tag_def)

lemma ui_moves_refl [simp]: "ui_moves v v"
  by (simp add: ui_moves_def)

lemma ui_moves_on_app_exit: "exit_view s0 = exit_view s \<Longrightarrow> ui_moves (exit_view s) (exit_view (on_app_exit E s0))"
  by (simp add: exit_view_on_app_exit ui_moves_def) (simp add: exit_view_def)

lemma exit_view_on_session_closed:
  "exit_view (on_session_closed s) =
     (is_closing s, False, False, threads s, exit_events (trace s) @ [App_release],
      Idle_on_session_closed \<in> set (idle_queue s))"
  by (simp add: on_session_closed_def exit_view_def emit_def)

lemma exit_view_updates [simp]:
  "exit_view (s\<lparr>prefs := b\<rparr>) = exit_view s"
  "exit_view (s\<lparr>msgwin := b\<rparr>) = exit_view s"
  "exit_view (s\<lparr>icon := b\<rparr>) = exit_view s"
  "exit_view (s\<lparr>details := m\<rparr>) = exit_view s"
  "exit_view (s\<lparr>sel := rows\<rparr>) = exit_view s"
  "exit_view (s\<lparr>timer := b\<rparr>) = exit_view s"
  "exit_view (s\<lparr>global_sigcount := n\<rparr>) = exit_view s"
  "exit_view (s\<lparr>core_torrent_count := n, core_active_torrent_count := n', model_rows := rows,
                  wind_visible := b\<rparr>) = exit_view s"
  by (simp_all add: exit_view_def)

lemma actions_handler_unknown:
  "name \<notin> set [''open-torrent-from-url'', ''open-torrent'', ''show-stats'', ''donate'',
      ''pause-all-torrents'', ''start-all-torrents'', ''copy-magnet-link-to-clipboard'',
      ''relocate-torrent'', ''torrent-start'', ''torrent-start-now'', ''torrent-stop'',
      ''torrent-reannounce'', ''torrent-verify'', ''queue-move-top'', ''queue-move-up'',
      ''queue-move-down'', ''queue-move-bottom'', ''open-torrent-folder'',
      ''show-torrent-properties'', ''new-torrent'', ''remove-torrent'', ''delete-torrent'', ''quit'',
      ''select-all'', ''deselect-all'', ''edit-preferences'', ''toggle-message-log'',
      ''show-about-dialog'', ''help'', ''toggle-main-window'', ''present-main-window''] \<Longrightarrow>
   actions_handler E s name = Inl (Fatal_error (''Unhandled action: '' @ name))"
  by (simp add: actions_handler_def)

lemma actions_handler_known:
  "name \<in> set [''open-torrent-from-url'', ''open-torrent'', ''show-stats'', ''donate'',
      ''pause-all-torrents'', ''start-all-torrents'', ''copy-magnet-link-to-clipboard'',
      ''relocate-torrent'', ''torrent-start'', ''torrent-start-now'', ''torrent-stop'',
      ''torrent-reannounce'', ''torrent-verify'', ''queue-move-top'', ''queue-move-up'',
      ''queue-move-down'', ''queue-move-bottom'', ''open-torrent-folder'',
      ''show-torrent-properties'', ''new-torrent'', ''remove-torrent'', ''delete-torrent'', ''quit'',
      ''select-all'', ''deselect-all'', ''edit-preferences'', ''toggle-message-log'',
      ''show-about-dialog'', ''help'', ''toggle-main-window'', ''present-main-window''] \<Longrightarrow>
   (case actions_handler E s name of
      Inl a \<Rightarrow> False
    | Inr s' \<Rightarrow> ui_moves (exit_view s) (exit_view s'))"
  apply (simp only: list.set insert_iff empty_iff)
  apply (elim disjE)
  apply (simp_all add: actions_handler_def exit_view_emit ui_moves_on_app_exit Let_def call_rpc_eq
           split: option.splits)
  done

lemma actions_handler_moves:
  "actions_handler E s name = Inr s' \<Longrightarrow> ui_moves (exit_view s) (exit_view s')"
proof -
  assume r: "actions_handler E s name = Inr s'"
  let ?known = "[''open-torrent-from-url'', ''open-torrent'', ''show-stats'', ''donate'',
      ''pause-all-torrents'', ''start-all-torrents'', ''copy-magnet-link-to-clipboard'',
      ''relocate-torrent'', ''torrent-start'', ''torrent-start-now'', ''torrent-stop'',
      ''torrent-reannounce'', ''torrent-verify'', ''queue-move-top'', ''queue-move-up'',
      ''queue-move-down'', ''queue-move-bottom'', ''open-torrent-folder'',
      ''show-torrent-properties'', ''new-torrent'', ''remove-torrent'', ''delete-torrent'', ''quit'',
      ''select-all'', ''deselect-all'', ''edit-preferences'', ''toggle-message-log'',
      ''show-about-dialog'', ''help'', ''toggle-main-window'', ''present-main-window'']"
  show ?thesis
  proof (cases "name \<in> set ?known")
    case True
    from actions_handler_known [OF True, where E = E and s = s] r show ?thesis by simp
  next
    case False
    from actions_handler_unknown [OF False, where E = E and s = s] r show ?thesis by simp
  qed
qed

lemma winclose_moves: "winclose E s = Inr s' \<Longrightarrow> ui_moves (exit_view s) (exit_view s')"
  by (cases "icon s")
     (auto simp: winclose_def gtr_action_activate_def ui_moves_on_app_exit dest: actions_handler_moves)

lemma signal_handler_moves:
  "signal_handler E s sig = Inr s' \<Longrightarrow> ui_moves (exit_view s) (exit_view s')"
proof -
  assume r: "signal_handler E s sig = Inr s'"
  let ?s1 = "s\<lparr>global_sigcount := global_sigcount s + 1\<rparr>"
  have v: "exit_view ?s1 = exit_view s" by simp
  show ?thesis
  proof (cases "sig = 2 \<or> sig = 15")
    case True
    with r have "actions_handler E ?s1 ''quit'' = Inr s'"
      by (simp add: signal_handler_def Let_def split: if_splits)
    from actions_handler_moves [OF this] show ?thesis by (simp only: v)
  next
    case False
    with r have "s' = ?s1" by (simp add: signal_handler_def Let_def split: if_splits)
    then show ?thesis by (simp only: v ui_moves_refl)
  qed
qed

lemma on_rpc_changed_idle_moves:
  "on_rpc_changed_idle E s type torrent_id = Inr s' \<Longrightarrow> ui_moves (exit_view s) (exit_view s')"
proof (cases type)
  case TR_RPC_SESSION_CHANGED
  assume "on_rpc_changed_idle E s type torrent_id = Inr s'"
  with TR_RPC_SESSION_CHANGED
  have "emit_prefs_changed E (collect_changed_keys E (pref_all s) (tr_sessionGetSettings E []))
          (s\<lparr>pref_all := tr_sessionGetSettings E (pref_all s)\<rparr>) = Inr s'"
    by (simp add: on_rpc_changed_idle_def Let_def)
  from exit_view_emit_prefs_changed [OF this]
  have "exit_view s' = exit_view s" by (simp add: exit_view_def)
  then show ?thesis by simp
next
  case TR_RPC_SESSION_CLOSE
  assume "on_rpc_changed_idle E s type torrent_id = Inr s'"
  with TR_RPC_SESSION_CLOSE show ?thesis
    by (simp add: on_rpc_changed_idle_def gtr_action_activate_def actions_handler_moves)
qed (auto simp: on_rpc_changed_idle_def exit_view_emit)

lemma handle_moves: "handle E ev s = Inr s' \<Longrightarrow> ui_moves (exit_view s) (exit_view s')"
proof (cases ev)
  case (Ev_action name)
  assume "handle E ev s = Inr s'"
  with Ev_action show ?thesis by (simp add: handle_def actions_handler_moves)
next
  case Ev_winclose
  assume "handle E ev s = Inr s'"
  with Ev_winclose show ?thesis by (simp add: handle_def winclose_moves)
next
  case (Ev_signal sig)
  assume "handle E ev s = Inr s'"
  with Ev_signal show ?thesis by (simp add: handle_def signal_handler_moves)
next
  case (Ev_core_error code msg)
  assume "handle E ev s = Inr s'"
  with Ev_core_error have "on_core_error E s code msg = Inr s'" by (simp add: handle_def)
  from exit_view_on_core_error [OF this] show ?thesis by simp
next
  case (Ev_prefs_changed key)
  assume "handle E ev s = Inr s'"
  with Ev_prefs_changed have "on_prefs_changed E s key = Inr s'" by (simp add: handle_def)
  from exit_view_on_prefs_changed [OF this] show ?thesis by simp
next
  case Ev_timer
  assume "handle E ev s = Inr s'"
  with Ev_timer show ?thesis by (auto simp: handle_def)
next
  case (Ev_row_changed b)
  assume "handle E ev s = Inr s'"
  with Ev_row_changed show ?thesis by (auto simp: handle_def rowChangedCB_def)
next
  case Ev_msgwin_closed
  assume "handle E ev s = Inr s'"
  with Ev_msgwin_closed show ?thesis by (auto simp: handle_def exit_view_def emit_def)
qed (auto simp: handle_def exit_view_emit)

lemma run_idle_moves:
  "cb \<noteq> Idle_on_session_closed \<Longrightarrow> run_idle E cb s = Inr s' \<Longrightarrow>
   ui_moves (exit_view s) (exit_view s')"
  by (cases cb) (auto simp: run_idle_def on_rpc_changed_idle_moves)

subsection \<open>The invariant of leaving\<close>

lemma thread_ok_mono: "thread_ok ee t \<Longrightarrow> set ee \<subseteq> set ee' \<Longrightarrow> thread_ok ee' t"
  by (auto simp: thread_ok_def)

lemma exit_inv_ui_moves: "exit_inv v \<Longrightarrow> ui_moves v v' \<Longrightarrow> exit_inv v'"
proof -
  assume i: "exit_inv v" and m: "ui_moves v v'"
  obtain closing w c ts ee q where v: "v = (closing, w, c, ts, ee, q)" by (cases v)
  from m have "v' = v \<or> v' = start_exit v" by (simp add: ui_moves_def) blast
  then show ?thesis
  proof
    assume "v' = v"
    with i show ?thesis by simp
  next
    assume "v' = start_exit v"
    then have v': "v' = (True, w, c, ts @ [[Op_tr_sessionClose, Op_idle_connect Idle_on_session_closed]], ee, q)"
      by (simp add: v start_exit_def)
    have "thread_ok ee [Op_tr_sessionClose, Op_idle_connect Idle_on_session_closed]"
      by (simp add: thread_ok_def)
    with i show ?thesis by (simp add: v v' exit_inv_def)
  qed
qed

lemma started_inv: "started s \<Longrightarrow> exit_inv (exit_view s)"
  by (simp add: started_def exit_inv_def exit_view_def)

lemma exit_events_subset: "set (exit_events es) \<subseteq> set es"
  by (simp add: exit_events_def)

lemma hd_append_nonempty: "xs \<noteq> [] \<Longrightarrow> hd (xs @ ys) = hd xs"
  by simp

lemma step_inv: "step s s' \<Longrightarrow> exit_inv (exit_view s) \<Longrightarrow> exit_inv (exit_view s')"
proof (induction rule: step.induct)
  case (ui E ev s s')
  from handle_moves [OF ui.hyps] ui.prems show ?case by (rule exit_inv_ui_moves [rotated])
next
  case (idle s pre cb post E s')
  let ?s0 = "s\<lparr>idle_queue := pre @ post\<rparr>"
  show ?case
  proof (cases "cb = Idle_on_session_closed")
    case True
    with idle.hyps have s': "s' = on_session_closed ?s0" by (simp add: run_idle_def)
    from True idle.hyps(1) idle.prems
    have tr: "Tr_sessionClose_returned \<in> set (exit_events (trace s))"
      and th: "\<forall>t\<in>set (threads s). thread_ok (exit_events (trace s)) t"
      and hd: "exit_events (trace s) = [] \<or> hd (exit_events (trace s)) = Tr_sessionClose_returned"
      by (simp_all add: exit_inv_def exit_view_def)
    from tr have ne: "exit_events (trace s) \<noteq> []" by auto
    have "hd (exit_events (trace s) @ [App_release]) = Tr_sessionClose_returned"
      using hd ne by (simp only: hd_append_nonempty) simp
    moreover have "\<forall>t\<in>set (threads s). thread_ok (exit_events (trace s) @ [App_release]) t"
    proof
      fix t assume "t \<in> set (threads s)"
      with th have "thread_ok (exit_events (trace s)) t" by simp
      then show "thread_ok (exit_events (trace s) @ [App_release]) t" by (rule thread_ok_mono) auto
    qed
    ultimately show ?thesis
      using tr by (simp add: s' exit_view_on_session_closed exit_inv_def)
  next
    case False
    have "exit_inv (exit_view ?s0)"
      using idle.prems idle.hyps(1) False by (simp add: exit_inv_def exit_view_def)
    with run_idle_moves [OF False idle.hyps(2)] show ?thesis by (rule exit_inv_ui_moves [rotated])
  qed
next
  case (thread_close i s ops)
  let ?ee = "exit_events (trace s)"
  from thread_close.prems
  have q: "Idle_on_session_closed \<in> set (idle_queue s) \<longrightarrow> Tr_sessionClose_returned \<in> set ?ee"
    and th: "\<forall>t\<in>set (threads s). thread_ok ?ee t"
    and hd: "?ee = [] \<or> hd ?ee = Tr_sessionClose_returned"
    and w: "\<not> wind s \<or> \<not> core s \<longrightarrow> Tr_sessionClose_returned \<in> set ?ee"
    by (simp_all add: exit_inv_def exit_view_def)
  have "thread_ok ?ee (threads s ! i)" using th thread_close.hyps(1) by simp
  then have ops: "ops = [Op_idle_connect Idle_on_session_closed]"
    using thread_close.hyps(2) by (simp add: thread_ok_def)
  have th': "\<forall>t\<in>set ((threads s)[i := ops]). thread_ok (?ee @ [Tr_sessionClose_returned]) t"
  proof
    fix t assume "t \<in> set ((threads s)[i := ops])"
    moreover have "set ((threads s)[i := ops]) \<subseteq> insert ops (set (threads s))"
      by (rule set_update_subset_insert)
    ultimately have "t = ops \<or> t \<in> set (threads s)" by blast
    then show "thread_ok (?ee @ [Tr_sessionClose_returned]) t"
    proof
      assume "t = ops"
      then show ?thesis by (simp add: ops thread_ok_def)
    next
      assume "t \<in> set (threads s)"
      with th have "thread_ok ?ee t" by simp
      then show ?thesis by (rule thread_ok_mono) auto
    qed
  qed
  have hd': "hd (?ee @ [Tr_sessionClose_returned]) = Tr_sessionClose_returned"
    using hd by (cases "?ee = []") simp_all
  show ?case
    using th' hd' by (simp add: exit_inv_def exit_view_def)
next
  case (thread_idle i s cb ops)
  let ?ee = "exit_events (trace s)"
  from thread_idle.prems
  have q: "Idle_on_session_closed \<in> set (idle_queue s) \<longrightarrow> Tr_sessionClose_returned \<in> set ?ee"
    and th: "\<forall>t\<in>set (threads s). thread_ok ?ee t"
    and hd: "?ee = [] \<or> hd ?ee = Tr_sessionClose_returned"
    and w: "\<not> wind s \<or> \<not> core s \<longrightarrow> Tr_sessionClose_returned \<in> set ?ee"
    by (simp_all add: exit_inv_def exit_view_def)
  have "thread_ok ?ee (threads s ! i)" using th thread_idle.hyps(1) by simp
  then have ops: "ops = []" and tr: "Tr_sessionClose_returned \<in> set ?ee"
    using thread_idle.hyps(2) by (simp_all add: thread_ok_def)
  have th': "\<forall>t\<in>set ((threads s)[i := ops]). thread_ok ?ee t"
  proof
    fix t assume "t \<in> set ((threads s)[i := ops])"
    moreover have "set ((threads s)[i := ops]) \<subseteq> insert ops (set (threads s))"
      by (rule set_update_subset_insert)
    ultimately have "t = ops \<or> t \<in> set (threads s)" by blast
    then show "thread_ok ?ee t" using th by (auto simp: ops thread_ok_def)
  qed
  show ?case
    using th' hd w tr by (simp add: exit_inv_def exit_view_def)
next
  case (rpc_changed s type torrent_id)
  then show ?case by (simp add: exit_inv_def exit_view_def)
qed

lemma reachable_inv: "reachable s \<Longrightarrow> exit_inv (exit_view s)"
proof (induction rule: reachable.induct)
  case (start s)
  then show ?case by (rule started_inv)
next
  case (next_step s s')
  from next_step.hyps(2) next_step.IH show ?case by (rule step_inv)
qed

lemma ui_moves_closing: "ui_moves (exit_view s) (exit_view s') \<Longrightarrow> is_closing s \<Longrightarrow> is_closing s'"
proof -
  assume m: "ui_moves (exit_view s) (exit_view s')" and c: "is_closing s"
  from c have "fst (exit_view s)" by (simp add: exit_view_def)
  with m have "exit_view s' = exit_view s" by (simp add: ui_moves_def)
  then have "fst (exit_view s') = fst (exit_view s)" by (simp only:)
  with c show "is_closing s'" by (simp add: exit_view_def)
qed

lemma step_closing: "step s s' \<Longrightarrow> is_closing s \<Longrightarrow> is_closing s'"
proof (induction rule: step.induct)
  case (ui E ev s s')
  from handle_moves [OF ui.hyps] ui.prems show ?case by (rule ui_moves_closing)
next
  case (idle s pre cb post E s')
  show ?case
  proof (cases "cb = Idle_on_session_closed")
    case True
    with idle.hyps idle.prems show ?thesis by (auto simp: run_idle_def on_session_closed_def emit_def)
  next
    case False
    from run_idle_moves [OF False idle.hyps(2)] show ?thesis
      by (rule ui_moves_closing) (simp add: idle.prems)
  qed
qed simp_all

lemma steps_closing: "rtranclp step s s' \<Longrightarrow> is_closing s \<Longrightarrow> is_closing s'"
proof (induction rule: rtranclp_induct)
  case base
  then show ?case .
next
  case (step y z)
  from step.hyps(2) step.IH [OF step.prems] show ?case by (rule step_closing)
qed

subsection \<open>Leaving is idempotent (C9)\<close>

lemma is_closing_on_app_exit: "is_closing (on_app_exit E s)"
  by (simp add: on_app_exit_def Let_def emit_def placeWindowFromPrefs_def
        disconnect_refresh_actions_tag_def)

lemma actions_handler_quit: "actions_handler E s ''quit'' = Inr (on_app_exit E s)"
  by (simp add: actions_handler_def)

lemma refresh_actions_closing: "is_closing s \<Longrightarrow> refresh_actions s = disconnect_refresh_actions_tag s"
  by (simp add: refresh_actions_def)

text \<open>
  C9. \<^verbatim>\<open>on_app_exit\<close> is idempotent: it sets \<^verbatim>\<open>is_closing_\<close>, and a call with the flag set
  changes nothing, whether it comes from the quit action, from closing the window (no tray
  icon), from the RPC session-close event or from the first signal, SIGINT (2) or SIGTERM
  (15), which goes through the quit action. No step of the process clears the flag. With
  the flag set, \<^verbatim>\<open>refresh_actions_soon\<close> does nothing and \<^verbatim>\<open>refresh_actions\<close> only
  disconnects its idle source: it sets no sensitivity. A repeated signal does not return
  and does not reach \<^verbatim>\<open>on_app_exit\<close>: \<^verbatim>\<open>signal_handler\<close> restores the default disposition and
  raises the signal again, which ends the process.
\<close>

theorem on_app_exit_idempotent:
  "on_app_exit E' (on_app_exit E s) = on_app_exit E s
   \<and> is_closing (on_app_exit E s)
   \<and> (is_closing s \<longrightarrow>
        on_app_exit E s = s
        \<and> actions_handler E s ''quit'' = Inr s
        \<and> (\<not> icon s \<longrightarrow> winclose E s = Inr s)
        \<and> on_rpc_changed_idle E s TR_RPC_SESSION_CLOSE torrent_id = Inr s
        \<and> (global_sigcount s = 0 \<longrightarrow> signal_handler E s first_sig = Inr (s\<lparr>global_sigcount := 1\<rparr>))
        \<and> refresh_actions_soon s = s
        \<and> refresh_actions s = disconnect_refresh_actions_tag s
        \<and> trace (refresh_actions s) = trace s
        \<and> (\<forall>s'. rtranclp step s s' \<longrightarrow> is_closing s'))
   \<and> (global_sigcount s = 0 \<and> (first_sig = 2 \<or> first_sig = 15) \<longrightarrow>
        signal_handler E s first_sig = Inr (on_app_exit E (s\<lparr>global_sigcount := 1\<rparr>)))
   \<and> (0 < global_sigcount s \<longrightarrow> signal_handler E s sig = Inl (Killed_by_signal sig))"
proof (intro conjI impI allI)
  show "on_app_exit E' (on_app_exit E s) = on_app_exit E s"
    by (rule on_app_exit_closing) (rule is_closing_on_app_exit)
next
  show "is_closing (on_app_exit E s)" by (rule is_closing_on_app_exit)
next
  assume c: "is_closing s"
  then show "on_app_exit E s = s" by (rule on_app_exit_closing)
  from c show "actions_handler E s ''quit'' = Inr s"
    by (simp add: actions_handler_quit on_app_exit_closing)
  from c show "on_rpc_changed_idle E s TR_RPC_SESSION_CLOSE torrent_id = Inr s"
    by (simp add: on_rpc_changed_idle_def gtr_action_activate_def actions_handler_quit
          on_app_exit_closing)
  from c show "refresh_actions_soon s = s" by (simp add: refresh_actions_soon_def)
  from c show "refresh_actions s = disconnect_refresh_actions_tag s"
    by (rule refresh_actions_closing)
  from c show "trace (refresh_actions s) = trace s"
    by (simp add: refresh_actions_closing)
next
  assume c: "is_closing s" and i: "\<not> icon s"
  then show "winclose E s = Inr s" by (simp add: winclose_def on_app_exit_closing)
next
  assume c: "is_closing s" and g: "global_sigcount s = 0"
  have "is_closing (s\<lparr>global_sigcount := 1\<rparr>)" using c by simp
  then have "on_app_exit E (s\<lparr>global_sigcount := 1\<rparr>) = s\<lparr>global_sigcount := 1\<rparr>"
    by (rule on_app_exit_closing)
  then show "signal_handler E s first_sig = Inr (s\<lparr>global_sigcount := 1\<rparr>)"
    using g by (simp add: signal_handler_def Let_def actions_handler_quit)
next
  fix s'
  assume "is_closing s" "rtranclp step s s'"
  then show "is_closing s'" by (rule steps_closing [rotated])
next
  assume "global_sigcount s = 0 \<and> (first_sig = 2 \<or> first_sig = 15)"
  then show "signal_handler E s first_sig = Inr (on_app_exit E (s\<lparr>global_sigcount := 1\<rparr>))"
    by (simp add: signal_handler_def Let_def actions_handler_quit)
next
  assume "0 < global_sigcount s"
  then show "signal_handler E s sig = Inl (Killed_by_signal sig)"
    by (simp add: signal_handler_def Let_def)
qed

theorem on_app_exit_idempotent_witness:
  "is_closing (on_app_exit example_env example_impl)
   \<and> on_app_exit example_env (on_app_exit example_env example_impl)
       = on_app_exit example_env example_impl
   \<and> actions_handler example_env (on_app_exit example_env example_impl) ''quit''
       = Inr (on_app_exit example_env example_impl)
   \<and> winclose example_env (on_app_exit example_env example_impl)
       = Inr (on_app_exit example_env example_impl)
   \<and> trace (refresh_actions (on_app_exit example_env example_impl))
       = trace (on_app_exit example_env example_impl)
   \<and> global_sigcount (on_app_exit example_env example_impl) = 0
   \<and> signal_handler example_env (on_app_exit example_env example_impl) 2
       = Inr ((on_app_exit example_env example_impl)\<lparr>global_sigcount := 1\<rparr>)
   \<and> signal_handler example_env example_impl 2
       = Inr (on_app_exit example_env (example_impl\<lparr>global_sigcount := 1\<rparr>))
   \<and> signal_handler example_env ((on_app_exit example_env example_impl)\<lparr>global_sigcount := 1\<rparr>) 2
       = Inl (Killed_by_signal 2)"
proof -
  have c: "is_closing (on_app_exit example_env example_impl)" by (rule is_closing_on_app_exit)
  have i: "\<not> icon (on_app_exit example_env example_impl)"
    by (simp add: on_app_exit_def Let_def emit_def placeWindowFromPrefs_def
          disconnect_refresh_actions_tag_def example_impl_def)
  have g: "global_sigcount (on_app_exit example_env example_impl) = 0"
    by (simp add: on_app_exit_def Let_def emit_def placeWindowFromPrefs_def
          disconnect_refresh_actions_tag_def example_impl_def)
  have g0: "global_sigcount example_impl = 0" by (simp add: example_impl_def)
  have a: "signal_handler example_env example_impl 2
       = Inr (on_app_exit example_env (example_impl\<lparr>global_sigcount := 1\<rparr>))"
    using on_app_exit_idempotent
            [where E = example_env and E' = example_env and s = example_impl
               and torrent_id = 0 and first_sig = 2 and sig = 2]
    by (simp add: g0)
  show ?thesis
    using on_app_exit_idempotent
            [where E = example_env and E' = example_env
               and s = "on_app_exit example_env example_impl" and torrent_id = 0
               and first_sig = 2 and sig = 2]
          on_app_exit_idempotent
            [where E = example_env and E' = example_env
               and s = "(on_app_exit example_env example_impl)\<lparr>global_sigcount := 1\<rparr>"
               and torrent_id = 0 and first_sig = 2 and sig = 2]
    by (simp add: c i g a)
qed

text \<open>
  A repeated signal: the first SIGTERM calls \<^verbatim>\<open>on_app_exit\<close> through the quit action and
  returns; the second, when the application is closing, does not return.
\<close>

theorem signal_handler_repeated_signal_counterexample:
  "signal_handler example_env example_impl 15
     = Inr (on_app_exit example_env (example_impl\<lparr>global_sigcount := 1\<rparr>))
   \<and> is_closing (on_app_exit example_env (example_impl\<lparr>global_sigcount := 1\<rparr>))
   \<and> signal_handler example_env (on_app_exit example_env (example_impl\<lparr>global_sigcount := 1\<rparr>)) 15
       = Inl (Killed_by_signal 15)"
proof -
  have g0: "global_sigcount example_impl = 0" by (simp add: example_impl_def)
  have a: "signal_handler example_env example_impl 15
     = Inr (on_app_exit example_env (example_impl\<lparr>global_sigcount := 1\<rparr>))"
    by (simp add: signal_handler_def Let_def actions_handler_quit g0)
  have c: "is_closing (on_app_exit example_env (example_impl\<lparr>global_sigcount := 1\<rparr>))"
    by (rule is_closing_on_app_exit)
  have g1: "global_sigcount (on_app_exit example_env (example_impl\<lparr>global_sigcount := 1\<rparr>)) = 1"
    by (simp add: on_app_exit_def Let_def emit_def placeWindowFromPrefs_def
          disconnect_refresh_actions_tag_def example_impl_def)
  have b: "signal_handler example_env (on_app_exit example_env (example_impl\<lparr>global_sigcount := 1\<rparr>)) 15
       = Inl (Killed_by_signal 15)"
    using g1 by (simp add: signal_handler_def Let_def)
  from a c b show ?thesis by simp
qed

subsection \<open>Teardown follows the return of the close call (C2)\<close>

lemma first_exit_event:
  assumes hd: "exit_events tr = [] \<or> hd (exit_events tr) = Tr_sessionClose_returned"
    and tr: "tr = pre @ App_release # post"
  shows "Tr_sessionClose_returned \<in> set pre"
proof -
  have e: "exit_events tr = exit_events pre @ App_release # exit_events post"
    by (simp add: tr)
  have "exit_events pre \<noteq> []"
  proof
    assume "exit_events pre = []"
    with e hd show False by simp
  qed
  then have "hd (exit_events tr) = hd (exit_events pre)" by (simp add: e)
  with hd e have "hd (exit_events pre) = Tr_sessionClose_returned" by simp
  moreover have "hd (exit_events pre) \<in> set (exit_events pre)"
    using \<open>exit_events pre \<noteq> []\<close> by (rule hd_in_set)
  ultimately show ?thesis using exit_events_subset [of pre] by auto
qed

text \<open>
  C2. \<^verbatim>\<open>on_app_exit\<close> tears nothing down: it detaches a thread that first calls
  \<^verbatim>\<open>tr_sessionClose\<close> and then attaches \<^verbatim>\<open>on_session_closed\<close> to the main loop as an idle
  source, and leaves the details dialogs, the preferences dialog, the window, the session
  object, the tray icon and the error lists as they are. \<^verbatim>\<open>on_session_closed\<close> is what
  resets them and releases the application. In every state the process reaches from a
  started application, each \<^verbatim>\<open>app_.release()\<close> of the trace comes after a return of
  \<^verbatim>\<open>tr_sessionClose\<close>; the window or the session object is gone only if
  \<^verbatim>\<open>tr_sessionClose\<close> has returned; and an idle source for \<^verbatim>\<open>on_session_closed\<close> is
  attached only then.
\<close>

theorem teardown_after_session_close:
  "(reachable s \<longrightarrow>
      (\<forall>pre post. trace s = pre @ App_release # post \<longrightarrow> Tr_sessionClose_returned \<in> set pre)
      \<and> (\<not> wind s \<or> \<not> core s \<longrightarrow> Tr_sessionClose_returned \<in> set (trace s))
      \<and> (Idle_on_session_closed \<in> set (idle_queue s) \<longrightarrow> Tr_sessionClose_returned \<in> set (trace s)))
   \<and> (\<not> is_closing s0 \<longrightarrow>
        threads (on_app_exit E s0)
          = threads s0 @ [[Op_tr_sessionClose, Op_idle_connect Idle_on_session_closed]]
        \<and> exit_events (trace (on_app_exit E s0)) = exit_events (trace s0)
        \<and> details (on_app_exit E s0) = details s0
        \<and> prefs (on_app_exit E s0) = prefs s0
        \<and> wind (on_app_exit E s0) = wind s0
        \<and> core (on_app_exit E s0) = core s0
        \<and> icon (on_app_exit E s0) = icon s0
        \<and> error_list (on_app_exit E s0) = error_list s0
        \<and> duplicates_list (on_app_exit E s0) = duplicates_list s0)
   \<and> details (on_session_closed s0) = Map.empty
   \<and> \<not> prefs (on_session_closed s0)
   \<and> \<not> wind (on_session_closed s0)
   \<and> \<not> core (on_session_closed s0)
   \<and> \<not> icon (on_session_closed s0)
   \<and> error_list (on_session_closed s0) = []
   \<and> duplicates_list (on_session_closed s0) = []
   \<and> trace (on_session_closed s0) = trace s0 @ [App_release]"
proof (intro conjI impI allI)
  fix pre post
  assume r: "reachable s" and t: "trace s = pre @ App_release # post"
  from reachable_inv [OF r]
  have "exit_events (trace s) = [] \<or> hd (exit_events (trace s)) = Tr_sessionClose_returned"
    by (simp add: exit_inv_def exit_view_def)
  then show "Tr_sessionClose_returned \<in> set pre" using t by (rule first_exit_event)
next
  assume r: "reachable s" and w: "\<not> wind s \<or> \<not> core s"
  from reachable_inv [OF r] w
  have "Tr_sessionClose_returned \<in> set (exit_events (trace s))"
    by (simp add: exit_inv_def exit_view_def)
  then show "Tr_sessionClose_returned \<in> set (trace s)"
    using exit_events_subset [of "trace s"] by auto
next
  assume r: "reachable s" and q: "Idle_on_session_closed \<in> set (idle_queue s)"
  from reachable_inv [OF r] q
  have "Tr_sessionClose_returned \<in> set (exit_events (trace s))"
    by (simp add: exit_inv_def exit_view_def)
  then show "Tr_sessionClose_returned \<in> set (trace s)"
    using exit_events_subset [of "trace s"] by auto
qed (simp_all add: on_app_exit_def on_session_closed_def Let_def emit_def placeWindowFromPrefs_def
       disconnect_refresh_actions_tag_def)

theorem teardown_after_session_close_witness:
  "let s1 = on_app_exit example_env example_impl;
       s2 = s1\<lparr>threads := (threads s1)[0 := [Op_idle_connect Idle_on_session_closed]],
               trace := trace s1 @ [Tr_sessionClose_returned]\<rparr>;
       s3 = s2\<lparr>threads := (threads s2)[0 := []],
               idle_queue := idle_queue s2 @ [Idle_on_session_closed]\<rparr>;
       s4 = on_session_closed (s3\<lparr>idle_queue := []\<rparr>)
   in reachable s4
      \<and> exit_events (trace s4) = [Tr_sessionClose_returned, App_release]
      \<and> Tr_sessionClose_returned \<in> set (trace s4)
      \<and> \<not> is_closing example_impl
      \<and> threads s1 = [[Op_tr_sessionClose, Op_idle_connect Idle_on_session_closed]]
      \<and> wind s1 \<and> core s1 \<and> \<not> wind s4 \<and> \<not> core s4"
proof -
  define s1 where "s1 = on_app_exit example_env example_impl"
  define s2 where "s2 = s1\<lparr>threads := (threads s1)[0 := [Op_idle_connect Idle_on_session_closed]],
               trace := trace s1 @ [Tr_sessionClose_returned]\<rparr>"
  define s3 where "s3 = s2\<lparr>threads := (threads s2)[0 := []],
               idle_queue := idle_queue s2 @ [Idle_on_session_closed]\<rparr>"
  define s4 where "s4 = on_session_closed (s3\<lparr>idle_queue := []\<rparr>)"
  have nc: "\<not> is_closing example_impl" by (simp add: example_impl_def)
  have r0: "reachable example_impl"
    by (rule reachable.start) (simp add: started_def example_impl_def)
  have "handle example_env (Ev_action ''quit'') example_impl = Inr s1"
    by (simp add: handle_def actions_handler_quit s1_def)
  then have "step example_impl s1" by (rule step.ui)
  with r0 have r1: "reachable s1" by (rule reachable.next_step)
  have t1: "threads s1 = [[Op_tr_sessionClose, Op_idle_connect Idle_on_session_closed]]"
    and q1: "idle_queue s1 = []" and w1: "wind s1" "core s1"
    and e1: "exit_events (trace s1) = []"
    by (simp_all add: s1_def on_app_exit_def Let_def emit_def placeWindowFromPrefs_def
          disconnect_refresh_actions_tag_def example_impl_def)
  have "step s1 s2"
    unfolding s2_def by (rule step.thread_close) (simp_all add: t1)
  with r1 have r2: "reachable s2" by (rule reachable.next_step)
  have t2: "threads s2 = [[Op_idle_connect Idle_on_session_closed]]"
    and q2: "idle_queue s2 = []"
    by (simp_all add: s2_def t1 q1)
  have "step s2 s3"
    unfolding s3_def by (rule step.thread_idle) (simp_all add: t2)
  with r2 have r3: "reachable s3" by (rule reachable.next_step)
  have q3: "idle_queue s3 = [] @ Idle_on_session_closed # []" by (simp add: s3_def q2)
  have "run_idle example_env Idle_on_session_closed (s3\<lparr>idle_queue := [] @ []\<rparr>) = Inr s4"
    by (simp add: run_idle_def s4_def)
  with q3 have "step s3 s4" by (rule step.idle)
  with r3 have r4: "reachable s4" by (rule reachable.next_step)
  have e4: "exit_events (trace s4) = [Tr_sessionClose_returned, App_release]"
    by (simp add: s4_def s3_def s2_def on_session_closed_def emit_def e1)
  have w4: "\<not> wind s4" "\<not> core s4" by (simp_all add: s4_def on_session_closed_def emit_def)
  from teardown_after_session_close [where s = s4 and ?s0.0 = example_impl and E = example_env] r4 w4
  have "Tr_sessionClose_returned \<in> set (trace s4)" by blast
  with r4 e4 nc t1 w1 w4 show ?thesis
    unfolding Let_def s1_def [symmetric] s2_def [symmetric] s3_def [symmetric] s4_def [symmetric]
    by simp
qed

end
